theory Spec2Isabelle
  imports Complex_Main
begin

section \<open>JavaScript values\<close>

text \<open>
  A JavaScript \<open>number\<close> is NaN, one of the two infinities, or a finite double. A finite
  double is identified with the real number it denotes. \<open>Math.round\<close>, \<open>Math.min\<close>,
  \<open>Math.max\<close>, \<open>Math.abs\<close> and the comparisons are exact on doubles, so they are exact
  here; a sum, a quotient and a decimal that is read back are rounded to the nearest double.
  Strings are lists of bytes (the UTF-8 encoding of the source text); a string is truthy iff it
  is not empty. An optional property is an \<open>option\<close>: \<open>None\<close> is \<open>undefined\<close>.
\<close>

datatype number = NaN | PosInf | NegInf | Fin real

fun Math_round :: "number \<Rightarrow> number" where
  "Math_round (Fin x) = Fin (of_int \<lfloor>x + 1 / 2\<rfloor>)"
| "Math_round n = n"

fun Math_min :: "number \<Rightarrow> number \<Rightarrow> number" where
  "Math_min NaN _ = NaN"
| "Math_min _ NaN = NaN"
| "Math_min NegInf _ = NegInf"
| "Math_min _ NegInf = NegInf"
| "Math_min PosInf y = y"
| "Math_min x PosInf = x"
| "Math_min (Fin x) (Fin y) = Fin (min x y)"

fun Math_max :: "number \<Rightarrow> number \<Rightarrow> number" where
  "Math_max NaN _ = NaN"
| "Math_max _ NaN = NaN"
| "Math_max PosInf _ = PosInf"
| "Math_max _ PosInf = PosInf"
| "Math_max NegInf y = y"
| "Math_max x NegInf = x"
| "Math_max (Fin x) (Fin y) = Fin (max x y)"

fun Math_abs :: "number \<Rightarrow> number" where
  "Math_abs (Fin x) = Fin \<bar>x\<bar>"
| "Math_abs NaN = NaN"
| "Math_abs _ = PosInf"

text \<open>\<open>a < b\<close> and \<open>a >= b\<close> of JavaScript: both are false when an operand is NaN.\<close>

fun num_less :: "number \<Rightarrow> number \<Rightarrow> bool" where
  "num_less NaN _ = False"
| "num_less _ NaN = False"
| "num_less PosInf _ = False"
| "num_less _ NegInf = False"
| "num_less NegInf _ = True"
| "num_less _ PosInf = True"
| "num_less (Fin x) (Fin y) = (x < y)"

fun num_eq :: "number \<Rightarrow> number \<Rightarrow> bool" where
  "num_eq NaN _ = False"
| "num_eq _ NaN = False"
| "num_eq x y = (x = y)"

definition num_ge :: "number \<Rightarrow> number \<Rightarrow> bool" where
  "num_ge a b = (num_less b a \<or> num_eq a b)"

definition num_le :: "number \<Rightarrow> number \<Rightarrow> bool" where
  "num_le a b = (num_less a b \<or> num_eq a b)"

text \<open>
  Rounding of a real to the nearest double (IEEE 754 binary64): 53 bits of significand,
  ties to the even significand, subnormal below \<open>2 ^ -1022\<close>, an infinity from
  \<open>2 ^ 1024\<close> on.
\<close>

definition round_half_even :: "real \<Rightarrow> int" where
  "round_half_even y =
     (let f = \<lfloor>y\<rfloor>; d = y - of_int f
      in if d < 1 / 2 then f else if 1 / 2 < d then f + 1 else if even f then f else f + 1)"

definition round_to_double :: "real \<Rightarrow> real" where
  "round_to_double x =
     (if x = 0 then 0
      else let e = max \<lfloor>log 2 \<bar>x\<bar>\<rfloor> (- 1022);
               ulp = 2 powr (of_int e - 52)
           in of_int (round_half_even (x / ulp)) * ulp)"

definition as_double :: "real \<Rightarrow> number" where
  "as_double x =
     (let r = round_to_double x
      in if 2 ^ 1024 \<le> r then PosInf else if r \<le> - (2 ^ 1024) then NegInf else Fin r)"

fun num_add :: "number \<Rightarrow> number \<Rightarrow> number" where
  "num_add NaN _ = NaN"
| "num_add _ NaN = NaN"
| "num_add PosInf NegInf = NaN"
| "num_add NegInf PosInf = NaN"
| "num_add PosInf _ = PosInf"
| "num_add _ PosInf = PosInf"
| "num_add NegInf _ = NegInf"
| "num_add _ NegInf = NegInf"
| "num_add (Fin x) (Fin y) = as_double (x + y)"

text \<open>Division by the length of an array (a non-negative integer).\<close>

fun num_div_length :: "number \<Rightarrow> nat \<Rightarrow> number" where
  "num_div_length NaN _ = NaN"
| "num_div_length PosInf _ = PosInf"
| "num_div_length NegInf _ = NegInf"
| "num_div_length (Fin x) n =
     (if n = 0 then (if x = 0 then NaN else if 0 < x then PosInf else NegInf)
      else as_double (x / real n))"

text \<open>
  \<open>Number(x.toFixed(2))\<close>: \<open>toFixed\<close> rounds the value of the double to two decimals, ties
  away from zero, and \<open>Number\<close> reads the decimal back as the nearest double.
\<close>

fun Number_toFixed2 :: "number \<Rightarrow> number" where
  "Number_toFixed2 (Fin x) = as_double (sgn x * of_int \<lfloor>\<bar>x\<bar> * 100 + 1 / 2\<rfloor> / 100)"
| "Number_toFixed2 n = n"

text \<open>Truthiness of a possibly absent number: \<open>undefined\<close>, NaN and zero are falsy.\<close>

fun truthy_num :: "number option \<Rightarrow> bool" where
  "truthy_num None = False"
| "truthy_num (Some NaN) = False"
| "truthy_num (Some (Fin x)) = (x \<noteq> 0)"
| "truthy_num (Some _) = True"

fun truthy_str :: "string option \<Rightarrow> bool" where
  "truthy_str None = False"
| "truthy_str (Some s) = (s \<noteq> [])"

text \<open>\<open>s.includes(sub)\<close>: \<open>sub\<close> occurs in \<open>s\<close> as a contiguous run.\<close>

definition startsWith :: "string \<Rightarrow> string \<Rightarrow> bool" where
  "startsWith s sub = (take (length sub) s = sub)"

fun str_includes :: "string \<Rightarrow> string \<Rightarrow> bool" where
  "str_includes [] sub = (sub = [])"
| "str_includes (c # cs) sub = (startsWith (c # cs) sub \<or> str_includes cs sub)"


section \<open>Analysis result normalizer (services/geminiService.ts)\<close>

datatype InvoiceType = INCOMING | OUTGOING

fun InvoiceType_str :: "InvoiceType \<Rightarrow> string" where
  "InvoiceType_str INCOMING = ''Eingangsrechnung''"
| "InvoiceType_str OUTGOING = ''Ausgangsrechnung''"

text \<open>
  \<open>OcrFieldConfidence\<close>. The interface types \<open>confidence\<close> as a number, but the normalizer
  tests \<open>typeof value !== 'number'\<close>: \<open>None\<close> is a confidence that is absent or not a number.
\<close>

record OcrFieldConfidence =
  fc_field :: string
  fc_value :: string
  fc_confidence :: "number option"
  fc_confidenceDescription :: "string option"

record GeminiAnalysisResult =
  ar_isInvoice :: bool
  ar_isOrderConfirmation :: bool
  ar_isEmailBody :: bool
  ar_documentDate :: string
  ar_textContent :: string
  ar_vendor :: string
  ar_totalAmount :: "number option"
  ar_vatAmount :: "number option"
  ar_invoiceNumber :: string
  ar_invoiceType :: InvoiceType
  ar_taxCategory :: string
  ar_averageConfidence :: "number option"
  ar_fieldConfidences :: "OcrFieldConfidence list option"
  ar_warnings :: "string list option"
  ar_suggestedStorageLocationId :: "string option"
  ar_pageCount :: "number option"

definition DEFAULT_DIGITAL_STORAGE_ID :: string where
  "DEFAULT_DIGITAL_STORAGE_ID = ''storage-default-digital''"

definition clampConfidence :: "number option \<Rightarrow> number" where
  "clampConfidence v =
     (case v of
        None \<Rightarrow> Fin 65
      | Some NaN \<Rightarrow> Fin 65
      | Some x \<Rightarrow> Math_max (Fin 10) (Math_min (Fin 100) (Math_round x)))"

definition describeConfidence :: "number \<Rightarrow> string" where
  "describeConfidence v =
     (if num_ge v (Fin 90) then ''Sehr hoch''
      else if num_ge v (Fin 75) then ''Stark''
      else if num_ge v (Fin 60) then ''Mittel''
      else ''Gering'')"

text \<open>
  \<open>toFixed\<close> stands for \<open>n.toFixed(2)\<close> as a string; it only fills the \<open>value\<close> of a field.
\<close>

definition amount_value :: "(number \<Rightarrow> string) \<Rightarrow> number option \<Rightarrow> string \<Rightarrow> string" where
  "amount_value toFixed v fallback = (case v of Some n \<Rightarrow> toFixed n | None \<Rightarrow> fallback)"

definition with_description :: "OcrFieldConfidence \<Rightarrow> OcrFieldConfidence" where
  "with_description f =
     f\<lparr>fc_confidenceDescription :=
         Some (describeConfidence (case fc_confidence f of Some c \<Rightarrow> c | None \<Rightarrow> NaN))\<rparr>"

definition buildDefaultFieldConfidences ::
  "(number \<Rightarrow> string) \<Rightarrow> GeminiAnalysisResult \<Rightarrow> OcrFieldConfidence list" where
  "buildDefaultFieldConfidences toFixed result =
     map with_description
       [\<lparr>fc_field = ''vendor'', fc_value = ar_vendor result,
          fc_confidence =
            Some (clampConfidence (Some (Fin (if ar_vendor result \<noteq> [] then 92 else 65)))),
          fc_confidenceDescription = None\<rparr>,
        \<lparr>fc_field = ''invoiceNumber'', fc_value = ar_invoiceNumber result,
          fc_confidence =
            Some (clampConfidence (Some (Fin (if ar_invoiceNumber result \<noteq> [] then 88 else 60)))),
          fc_confidenceDescription = None\<rparr>,
        \<lparr>fc_field = ''documentDate'', fc_value = ar_documentDate result,
          fc_confidence =
            Some (clampConfidence (Some (Fin (if ar_documentDate result \<noteq> [] then 87 else 60)))),
          fc_confidenceDescription = None\<rparr>,
        \<lparr>fc_field = ''totalAmount'', fc_value = amount_value toFixed (ar_totalAmount result) [],
          fc_confidence =
            Some (clampConfidence (Some (Fin (if truthy_num (ar_totalAmount result) then 90 else 58)))),
          fc_confidenceDescription = None\<rparr>,
        \<lparr>fc_field = ''vatAmount'', fc_value = amount_value toFixed (ar_vatAmount result) [],
          fc_confidence =
            Some (clampConfidence (Some (Fin (if truthy_num (ar_vatAmount result) then 82 else 55)))),
          fc_confidenceDescription = None\<rparr>,
        \<lparr>fc_field = ''invoiceType'', fc_value = InvoiceType_str (ar_invoiceType result),
          fc_confidence = Some (clampConfidence (Some (Fin 86))),
          fc_confidenceDescription = None\<rparr>,
        \<lparr>fc_field = ''taxCategory'',
          fc_value = (if ar_taxCategory result \<noteq> [] then ar_taxCategory result else ''Sonstiges''),
          fc_confidence =
            Some (clampConfidence (Some (Fin
              (if ar_taxCategory result \<noteq> [] \<and> ar_taxCategory result \<noteq> ''Sonstiges''
               then 78 else 65)))),
          fc_confidenceDescription = None\<rparr>]"

definition WARN_ORDER_CONFIRMATION :: string where
  "WARN_ORDER_CONFIRMATION =
     ''Analyse deutet auf eine Bestellbest'' @ [CHR 0xC3, CHR 0xA4] @ ''tigung ohne Rechnung hin.''"

definition WARN_EMAIL_BODY :: string where
  "WARN_EMAIL_BODY =
     ''Dokument wirkt wie eine E-Mail '' @ [CHR 0xE2, CHR 0x80, CHR 0x93] @ '' bitte pr''
       @ [CHR 0xC3, CHR 0xBC] @ ''fen, ob ein offizieller Beleg vorliegt.''"

definition WARN_INVOICE_NUMBER :: string where
  "WARN_INVOICE_NUMBER = ''Keine eindeutige Rechnungsnummer erkannt.''"

definition WARN_TOTAL_AMOUNT :: string where
  "WARN_TOTAL_AMOUNT = ''Kein g'' @ [CHR 0xC3, CHR 0xBC] @ ''ltiger Bruttobetrag erkannt.''"

definition WARN_LOW_CONFIDENCE :: string where
  "WARN_LOW_CONFIDENCE =
     ''OCR-Qualit'' @ [CHR 0xC3, CHR 0xA4] @ ''t liegt unter 75 %. Felder bitte manuell pr''
       @ [CHR 0xC3, CHR 0xBC] @ ''fen.''"

text \<open>\<open>!result.totalAmount || result.totalAmount <= 0\<close>\<close>

definition invalid_total :: "number option \<Rightarrow> bool" where
  "invalid_total v =
     (\<not> truthy_num v \<or> (case v of Some n \<Rightarrow> num_le n (Fin 0) | None \<Rightarrow> False))"

definition deriveDefaultWarnings :: "GeminiAnalysisResult \<Rightarrow> number \<Rightarrow> string list" where
  "deriveDefaultWarnings result averageConfidence =
     (let w0 = (case ar_warnings result of Some ws \<Rightarrow> ws | None \<Rightarrow> []);
          w1 = (if ar_isOrderConfirmation result \<and> \<not> ar_isInvoice result
                     \<and> \<not> list_ex (\<lambda>w. str_includes w ''Bestell'') w0
                then w0 @ [WARN_ORDER_CONFIRMATION] else w0);
          w2 = (if ar_isEmailBody result \<and> \<not> ar_isInvoice result
                     \<and> \<not> list_ex (\<lambda>w. str_includes w ''E-Mail'') w1
                then w1 @ [WARN_EMAIL_BODY] else w1);
          w3 = (if ar_invoiceNumber result = [] \<and> \<not> list_ex (\<lambda>w. str_includes w ''Rechnungsnummer'') w2
                then w2 @ [WARN_INVOICE_NUMBER] else w2);
          w4 = (if invalid_total (ar_totalAmount result) then w3 @ [WARN_TOTAL_AMOUNT] else w3);
          w5 = (if num_less averageConfidence (Fin 75) then w4 @ [WARN_LOW_CONFIDENCE] else w4)
      in w5)"

definition clampField :: "OcrFieldConfidence \<Rightarrow> OcrFieldConfidence" where
  "clampField f =
     f\<lparr>fc_confidence := Some (clampConfidence (fc_confidence f)),
       fc_confidenceDescription :=
         (if truthy_str (fc_confidenceDescription f) then fc_confidenceDescription f
          else Some (describeConfidence (clampConfidence (fc_confidence f))))\<rparr>"

definition synchronizeField ::
  "(number \<Rightarrow> string) \<Rightarrow> GeminiAnalysisResult \<Rightarrow> OcrFieldConfidence \<Rightarrow> OcrFieldConfidence" where
  "synchronizeField toFixed result f =
     (if fc_field f = ''vendor'' then f\<lparr>fc_value := ar_vendor result\<rparr>
      else if fc_field f = ''invoiceNumber'' then f\<lparr>fc_value := ar_invoiceNumber result\<rparr>
      else if fc_field f = ''documentDate'' then f\<lparr>fc_value := ar_documentDate result\<rparr>
      else if fc_field f = ''totalAmount''
        then f\<lparr>fc_value := amount_value toFixed (ar_totalAmount result) (fc_value f)\<rparr>
      else if fc_field f = ''vatAmount''
        then f\<lparr>fc_value := amount_value toFixed (ar_vatAmount result) (fc_value f)\<rparr>
      else if fc_field f = ''invoiceType'' then f\<lparr>fc_value := InvoiceType_str (ar_invoiceType result)\<rparr>
      else if fc_field f = ''taxCategory''
        then f\<lparr>fc_value := (if ar_taxCategory result \<noteq> [] then ar_taxCategory result else ''Sonstiges'')\<rparr>
      else f)"

text \<open>\<open>sum + field.confidence\<close>; adding \<open>undefined\<close> gives NaN.\<close>

definition sum_confidence :: "OcrFieldConfidence list \<Rightarrow> number" where
  "sum_confidence fs =
     fold (\<lambda>f sum. num_add sum (case fc_confidence f of Some c \<Rightarrow> c | None \<Rightarrow> NaN)) fs (Fin 0)"

definition baseFields ::
  "(number \<Rightarrow> string) \<Rightarrow> GeminiAnalysisResult \<Rightarrow> OcrFieldConfidence list" where
  "baseFields toFixed result =
     (case ar_fieldConfidences result of
        Some (f # fs) \<Rightarrow> map clampField (f # fs)
      | _ \<Rightarrow> buildDefaultFieldConfidences toFixed result)"

definition ensureExtendedAnalysisData ::
  "(number \<Rightarrow> string) \<Rightarrow> GeminiAnalysisResult \<Rightarrow> GeminiAnalysisResult" where
  "ensureExtendedAnalysisData toFixed result =
     (let synchronizedFields = map (synchronizeField toFixed result) (baseFields toFixed result);
          avg = (if 0 < length synchronizedFields
                 then Number_toFixed2
                        (num_div_length (sum_confidence synchronizedFields) (length synchronizedFields))
                 else clampConfidence (ar_averageConfidence result));
          averageConfidence =
            (case ar_averageConfidence result of Some a \<Rightarrow> Number_toFixed2 a | None \<Rightarrow> avg);
          warnings = deriveDefaultWarnings result averageConfidence
      in result\<lparr>ar_fieldConfidences := Some synchronizedFields,
                ar_averageConfidence := Some averageConfidence,
                ar_warnings := Some warnings,
                ar_suggestedStorageLocationId :=
                  (if truthy_str (ar_suggestedStorageLocationId result)
                   then ar_suggestedStorageLocationId result
                   else Some DEFAULT_DIGITAL_STORAGE_ID)\<rparr>)"

text \<open>An analysis of a receipt whose total amount was read as zero, without warnings so far.\<close>

definition zero_total_analysis :: GeminiAnalysisResult where
  "zero_total_analysis =
     \<lparr>ar_isInvoice = True, ar_isOrderConfirmation = False, ar_isEmailBody = False,
      ar_documentDate = ''2024-01-01'', ar_textContent = ''Rechnung'', ar_vendor = ''Bauhaus'',
      ar_totalAmount = Some (Fin 0), ar_vatAmount = Some (Fin 0), ar_invoiceNumber = ''RE-1'',
      ar_invoiceType = INCOMING, ar_taxCategory = ''Material'', ar_averageConfidence = None,
      ar_fieldConfidences = None, ar_warnings = None,
      ar_suggestedStorageLocationId = None, ar_pageCount = None\<rparr>"




section \<open>Transactions (types.ts)\<close>

text \<open>A \<open>Date\<close> object: a time value in milliseconds, or the invalid date.\<close>

datatype Date = Invalid_Date | Time int

datatype TransactionStatus = COMPLETE | MISSING_RECEIPT | DRAFT

datatype TransactionSource = SRC_MANUAL | SRC_LEXOFFICE | SRC_AI

record AccountingTransaction =
  tx_id :: string
  tx_externalId :: "string option"
  tx_date :: Date
  tx_description :: string
  tx_amount :: number
  tx_invoiceType :: InvoiceType
  tx_taxCategory :: string
  tx_documentId :: "string option"
  tx_status :: TransactionStatus
  tx_source :: TransactionSource
  tx_notes :: "string option"
  tx_createdAt :: Date
  tx_updatedAt :: Date

record LexofficeTransactionPayload =
  pl_id :: string
  pl_description :: string
  pl_amount :: number
  pl_date :: string
  pl_invoiceType :: InvoiceType
  pl_taxCategory :: string
  pl_invoiceNumber :: "string option"
  pl_hasDocument :: bool
  pl_voucherId :: "string option"
  pl_fileIds :: "string list option"
  pl_vendor :: "string option"


section \<open>Transaction reconciliation engine (services/lexofficeService.ts)\<close>

text \<open>
  \<open>indexByExternalId\<close>: built once, from the existing transactions, before the incoming
  payloads are read. A later transaction with the same external id overwrites the entry;
  a transaction without an external id, or with the empty one, gets no entry.
\<close>

definition indexEntry ::
  "(string \<rightharpoonup> nat) \<Rightarrow> AccountingTransaction \<times> nat \<Rightarrow> (string \<rightharpoonup> nat)" where
  "indexEntry m p =
     (case tx_externalId (fst p) of
        Some e \<Rightarrow> (if e \<noteq> [] then m(e \<mapsto> snd p) else m)
      | None \<Rightarrow> m)"

definition indexByExternalId :: "AccountingTransaction list \<Rightarrow> (string \<rightharpoonup> nat)" where
  "indexByExternalId txs = foldl indexEntry Map.empty (zip txs [0 ..< length txs])"

record UpsertResult =
  updatedTransactions :: "AccountingTransaction list"
  notifications :: "string list"
  imported :: nat
  updated :: nat
  skipped :: nat
  missingReceipts :: nat

text \<open>
  \<open>payload.invoiceNumber ? linkedByInvoice.get(payload.invoiceNumber) : undefined\<close>
\<close>

definition lookupDocumentId ::
  "(string \<rightharpoonup> string) \<Rightarrow> LexofficeTransactionPayload \<Rightarrow> string option" where
  "lookupDocumentId linkedByInvoice payload =
     (case pl_invoiceNumber payload of
        Some n \<Rightarrow> (if n \<noteq> [] then linkedByInvoice n else None)
      | None \<Rightarrow> None)"

definition statusOf :: "string option \<Rightarrow> TransactionStatus" where
  "statusOf documentId = (if truthy_str documentId then COMPLETE else MISSING_RECEIPT)"

definition updatedNotification :: "string \<Rightarrow> string" where
  "updatedNotification description =
     ''Transaktion '' @ [CHR 0x22] @ description @ [CHR 0x22] @ '' aktualisiert.''"

definition importedNotification :: "string \<Rightarrow> string" where
  "importedNotification description =
     ''Neue Transaktion '' @ [CHR 0x22] @ description @ [CHR 0x22] @ '' importiert.''"

text \<open>The update path: the record written over \<open>updatedTransactions[index]\<close>.\<close>

definition updateExisting ::
  "(string \<Rightarrow> Date) \<Rightarrow> Date \<Rightarrow> (string \<rightharpoonup> string) \<Rightarrow> LexofficeTransactionPayload
     \<Rightarrow> AccountingTransaction \<Rightarrow> AccountingTransaction" where
  "updateExisting parseDate now linkedByInvoice payload existing =
     (let documentId = lookupDocumentId linkedByInvoice payload in
      existing\<lparr>tx_description := pl_description payload,
               tx_amount := pl_amount payload,
               tx_invoiceType := pl_invoiceType payload,
               tx_taxCategory := pl_taxCategory payload,
               tx_documentId :=
                 (case documentId of Some d \<Rightarrow> Some d | None \<Rightarrow> tx_documentId existing),
               tx_status := statusOf documentId,
               tx_date := parseDate (pl_date payload),
               tx_updatedAt := now,
               tx_source := SRC_LEXOFFICE\<rparr>)"

text \<open>The insert path: the record pushed onto \<open>updatedTransactions\<close>.\<close>

definition newTransaction ::
  "(string \<Rightarrow> Date) \<Rightarrow> Date \<Rightarrow> (string \<rightharpoonup> string) \<Rightarrow> LexofficeTransactionPayload
     \<Rightarrow> AccountingTransaction" where
  "newTransaction parseDate now linkedByInvoice payload =
     (let documentId = lookupDocumentId linkedByInvoice payload in
      \<lparr>tx_id = ''tx-'' @ pl_id payload,
       tx_externalId = Some (pl_id payload),
       tx_date = parseDate (pl_date payload),
       tx_description = pl_description payload,
       tx_amount = pl_amount payload,
       tx_invoiceType = pl_invoiceType payload,
       tx_taxCategory = pl_taxCategory payload,
       tx_documentId = documentId,
       tx_status = statusOf documentId,
       tx_source = SRC_LEXOFFICE,
       tx_notes =
         (if truthy_str (pl_invoiceNumber payload)
          then Some (''Lexoffice Nr. '' @ (case pl_invoiceNumber payload of Some n \<Rightarrow> n | None \<Rightarrow> []))
          else None),
       tx_createdAt = now,
       tx_updatedAt = now\<rparr>)"

text \<open>
  One round of \<open>incoming.forEach\<close>. \<open>idx\<close> is \<open>indexByExternalId\<close>; the loop never writes
  to it. Every index it holds is below the length of the list (lemma \<open>index_in_range\<close>
  below), so \<open>updatedTransactions[index]\<close> always reads an element.
\<close>

definition upsertStep ::
  "(string \<Rightarrow> Date) \<Rightarrow> Date \<Rightarrow> (string \<rightharpoonup> string) \<Rightarrow> (string \<rightharpoonup> nat)
     \<Rightarrow> UpsertResult \<Rightarrow> LexofficeTransactionPayload \<Rightarrow> UpsertResult" where
  "upsertStep parseDate now linkedByInvoice idx st payload =
     (let status = statusOf (lookupDocumentId linkedByInvoice payload);
          st = (if status = MISSING_RECEIPT
                then st\<lparr>missingReceipts := missingReceipts st + 1\<rparr> else st)
      in case idx (pl_id payload) of
           Some index \<Rightarrow>
             st\<lparr>updatedTransactions :=
                  (updatedTransactions st)
                    [index := updateExisting parseDate now linkedByInvoice payload
                                (updatedTransactions st ! index)],
                updated := updated st + 1,
                notifications := notifications st @ [updatedNotification (pl_description payload)]\<rparr>
         | None \<Rightarrow>
             st\<lparr>updatedTransactions :=
                  updatedTransactions st @ [newTransaction parseDate now linkedByInvoice payload],
                imported := imported st + 1,
                notifications := notifications st @ [importedNotification (pl_description payload)]\<rparr>)"

definition upsertTransactionsFromLexoffice ::
  "(string \<Rightarrow> Date) \<Rightarrow> Date \<Rightarrow> LexofficeTransactionPayload list \<Rightarrow> AccountingTransaction list
     \<Rightarrow> (string \<rightharpoonup> string) \<Rightarrow> UpsertResult" where
  "upsertTransactionsFromLexoffice parseDate now incoming existingTransactions linkedByInvoice =
     foldl (upsertStep parseDate now linkedByInvoice (indexByExternalId existingTransactions))
       \<lparr>updatedTransactions = existingTransactions, notifications = [],
        imported = 0, updated = 0, skipped = 0, missingReceipts = 0\<rparr>
       incoming"


text \<open>A payload takes the insert path when the index has no entry for its id.\<close>

definition unindexed :: "AccountingTransaction list \<Rightarrow> LexofficeTransactionPayload \<Rightarrow> bool" where
  "unindexed existing p = (indexByExternalId existing (pl_id p) = None)"

definition countExternalId :: "string \<Rightarrow> AccountingTransaction list \<Rightarrow> nat" where
  "countExternalId e txs = length (filter (\<lambda>t. tx_externalId t = Some e) txs)"


section \<open>What a batch leaves in the transaction list\<close>

text \<open>The payloads of a batch that the index sends to position \<open>i\<close>, in their order.\<close>

definition matchedPayloads ::
  "AccountingTransaction list \<Rightarrow> LexofficeTransactionPayload list \<Rightarrow> nat
     \<Rightarrow> LexofficeTransactionPayload list" where
  "matchedPayloads existing incoming i =
     filter (\<lambda>p. indexByExternalId existing (pl_id p) = Some i) incoming"

text \<open>
  The link of a transaction after a run of updates: each payload whose invoice number finds
  a document sets it, any other payload keeps what was there.
\<close>

definition linkAfter ::
  "(string \<rightharpoonup> string) \<Rightarrow> LexofficeTransactionPayload list \<Rightarrow> string option \<Rightarrow> string option" where
  "linkAfter linkedByInvoice ps old =
     foldl (\<lambda>d p. case lookupDocumentId linkedByInvoice p of Some d' \<Rightarrow> Some d' | None \<Rightarrow> d) old ps"

text \<open>
  A record \<open>t\<close> is the old record \<open>old\<close> written over by the payloads \<open>ps\<close>: it has the
  data of the last one, the link the payloads leave, and the identity, notes and creation
  time of the old record.
\<close>

definition writtenOver ::
  "(string \<Rightarrow> Date) \<Rightarrow> Date \<Rightarrow> (string \<rightharpoonup> string) \<Rightarrow> LexofficeTransactionPayload list
     \<Rightarrow> AccountingTransaction \<Rightarrow> AccountingTransaction \<Rightarrow> bool" where
  "writtenOver parseDate now linkedByInvoice ps old t =
     (tx_id t = tx_id old \<and> tx_externalId t = tx_externalId old
      \<and> tx_notes t = tx_notes old \<and> tx_createdAt t = tx_createdAt old
      \<and> tx_description t = pl_description (last ps)
      \<and> tx_amount t = pl_amount (last ps)
      \<and> tx_invoiceType t = pl_invoiceType (last ps)
      \<and> tx_taxCategory t = pl_taxCategory (last ps)
      \<and> tx_date t = parseDate (pl_date (last ps))
      \<and> tx_updatedAt t = now
      \<and> tx_source t = SRC_LEXOFFICE
      \<and> tx_status t = statusOf (lookupDocumentId linkedByInvoice (last ps))
      \<and> tx_documentId t = linkAfter linkedByInvoice ps (tx_documentId old))"

text \<open>A record \<open>t\<close> is the record inserted for the payload \<open>p\<close>.\<close>

definition insertedFor ::
  "(string \<Rightarrow> Date) \<Rightarrow> Date \<Rightarrow> (string \<rightharpoonup> string) \<Rightarrow> LexofficeTransactionPayload
     \<Rightarrow> AccountingTransaction \<Rightarrow> bool" where
  "insertedFor parseDate now linkedByInvoice p t =
     (tx_id t = ''tx-'' @ pl_id p \<and> tx_externalId t = Some (pl_id p)
      \<and> tx_description t = pl_description p
      \<and> tx_amount t = pl_amount p
      \<and> tx_invoiceType t = pl_invoiceType p
      \<and> tx_taxCategory t = pl_taxCategory p
      \<and> tx_date t = parseDate (pl_date p)
      \<and> tx_createdAt t = now \<and> tx_updatedAt t = now
      \<and> tx_source t = SRC_LEXOFFICE
      \<and> tx_documentId t = lookupDocumentId linkedByInvoice p
      \<and> tx_status t = statusOf (lookupDocumentId linkedByInvoice p))"

text \<open>What becomes of position \<open>i\<close> of the existing list.\<close>

definition positionKept ::
  "(string \<Rightarrow> Date) \<Rightarrow> Date \<Rightarrow> (string \<rightharpoonup> string) \<Rightarrow> AccountingTransaction list
     \<Rightarrow> LexofficeTransactionPayload list \<Rightarrow> AccountingTransaction list \<Rightarrow> nat \<Rightarrow> bool" where
  "positionKept parseDate now linkedByInvoice existing incoming out i =
     (if matchedPayloads existing incoming i = [] then out ! i = existing ! i
      else writtenOver parseDate now linkedByInvoice (matchedPayloads existing incoming i)
             (existing ! i) (out ! i))"

text \<open>The notification a payload leaves.\<close>

definition notificationFor ::
  "AccountingTransaction list \<Rightarrow> LexofficeTransactionPayload \<Rightarrow> string" where
  "notificationFor existing p =
     (if unindexed existing p then importedNotification (pl_description p)
      else updatedNotification (pl_description p))"

text \<open>The matched record after the payloads \<open>ps\<close> have been written over it, one by one.\<close>

definition applyUpdates ::
  "(string \<Rightarrow> Date) \<Rightarrow> Date \<Rightarrow> (string \<rightharpoonup> string) \<Rightarrow> LexofficeTransactionPayload list
     \<Rightarrow> AccountingTransaction \<Rightarrow> AccountingTransaction" where
  "applyUpdates parseDate now linkedByInvoice ps old =
     foldl (\<lambda>t p. updateExisting parseDate now linkedByInvoice p t) old ps"


text \<open>A payload without an invoice number, for the concrete runs below.\<close>

definition payload_A :: LexofficeTransactionPayload where
  "payload_A = \<lparr>pl_id = ''A'', pl_description = ''Miete'', pl_amount = Fin 100,
     pl_date = ''2024-01-01'', pl_invoiceType = OUTGOING, pl_taxCategory = ''Einnahmen'',
     pl_invoiceNumber = None, pl_hasDocument = False, pl_voucherId = None,
     pl_fileIds = None, pl_vendor = None\<rparr>"


section \<open>Documents of the application state (types.ts)\<close>

datatype DocumentSource = DS_MANUAL | DS_LOCAL | DS_EMAIL | DS_WHATSAPP | DS_LEXOFFICE

datatype DocumentStatus =
  OK | MISSING_INVOICE | SCREENSHOT | ANALYZING | POTENTIAL_DUPLICATE | ARCHIVED | ERROR

datatype LexofficeStatus = NOT_SENT | SUCCESS | FAILED

record LexofficeInfo =
  lx_status :: LexofficeStatus
  lx_sentAt :: Date

record DocumentOcrMetadata =
  om_averageConfidence :: number
  om_analysedAt :: Date
  om_engineVersion :: string
  om_pageCount :: "number option"
  om_fields :: "OcrFieldConfidence list"
  om_warnings :: "string list option"

text \<open>The browser's \<open>File\<close> object of a document is opaque.\<close>

typedecl File

record Document =
  d_id :: string
  d_name :: string
  d_date :: Date
  d_year :: int
  d_quarter :: int
  d_source :: DocumentSource
  d_status :: DocumentStatus
  d_fileUrl :: string
  d_file :: "File option"
  d_textContent :: "string option"
  d_vendor :: "string option"
  d_totalAmount :: "number option"
  d_vatAmount :: "number option"
  d_invoiceNumber :: "string option"
  d_invoiceType :: InvoiceType
  d_taxCategory :: "string option"
  d_lexoffice :: "LexofficeInfo option"
  d_errorMessage :: "string option"
  d_storageLocationId :: "string option"
  d_tags :: "string list option"
  d_linkedTransactionIds :: "string list option"
  d_ocrMetadata :: "DocumentOcrMetadata option"


section \<open>Link synchronizer (the effects of App.tsx)\<close>

text \<open>
  Transaction side, run when the documents change: a transaction whose \<open>documentId\<close> is
  truthy and names no document is reset.
\<close>

definition danglingLink :: "Document list \<Rightarrow> AccountingTransaction \<Rightarrow> bool" where
  "danglingLink documents tx =
     (case tx_documentId tx of
        Some d \<Rightarrow> d \<noteq> [] \<and> d \<notin> set (map d_id documents)
      | None \<Rightarrow> False)"

definition resetLink :: "Date \<Rightarrow> Document list \<Rightarrow> AccountingTransaction \<Rightarrow> AccountingTransaction" where
  "resetLink now documents tx =
     (if danglingLink documents tx
      then tx\<lparr>tx_documentId := None, tx_status := MISSING_RECEIPT, tx_updatedAt := now\<rparr>
      else tx)"

definition syncTransactions ::
  "Date \<Rightarrow> Document list \<Rightarrow> AccountingTransaction list \<Rightarrow> AccountingTransaction list" where
  "syncTransactions now documents prevTransactions =
     (let hasChange = list_ex (danglingLink documents) prevTransactions;
          updatedTransactions = map (resetLink now documents) prevTransactions
      in if hasChange then updatedTransactions else prevTransactions)"

text \<open>
  Document side, run when the transactions change. \<open>linkedByDoc\<close> maps a document id to
  the ids of the transactions that name it, in the order of the transaction list.
\<close>

definition linkEntry ::
  "(string \<rightharpoonup> string list) \<Rightarrow> AccountingTransaction \<Rightarrow> (string \<rightharpoonup> string list)" where
  "linkEntry m tx =
     (case tx_documentId tx of
        Some d \<Rightarrow>
          (if d \<noteq> [] then m(d \<mapsto> (case m d of Some list \<Rightarrow> list | None \<Rightarrow> []) @ [tx_id tx])
           else m)
      | None \<Rightarrow> m)"

definition linkedByDoc :: "AccountingTransaction list \<Rightarrow> (string \<rightharpoonup> string list)" where
  "linkedByDoc transactions = foldl linkEntry Map.empty transactions"

definition linkedIdsOf :: "AccountingTransaction list \<Rightarrow> Document \<Rightarrow> string list" where
  "linkedIdsOf transactions doc =
     (case linkedByDoc transactions (d_id doc) of Some list \<Rightarrow> list | None \<Rightarrow> [])"

definition currentIdsOf :: "Document \<Rightarrow> string list" where
  "currentIdsOf doc = (case d_linkedTransactionIds doc of Some ids \<Rightarrow> ids | None \<Rightarrow> [])"

definition sameMembers :: "AccountingTransaction list \<Rightarrow> Document \<Rightarrow> bool" where
  "sameMembers transactions doc =
     (let linkedIds = linkedIdsOf transactions doc;
          currentIds = currentIdsOf doc;
          sameLength = (length currentIds = length linkedIds)
      in sameLength \<and> list_all (\<lambda>i. i \<in> set linkedIds) currentIds)"

definition relink :: "AccountingTransaction list \<Rightarrow> Document \<Rightarrow> Document" where
  "relink transactions doc =
     (if \<not> sameMembers transactions doc
      then doc\<lparr>d_linkedTransactionIds := Some (linkedIdsOf transactions doc)\<rparr>
      else doc)"

definition syncDocuments :: "AccountingTransaction list \<Rightarrow> Document list \<Rightarrow> Document list" where
  "syncDocuments transactions prevDocs =
     (let changed = list_ex (\<lambda>doc. \<not> sameMembers transactions doc) prevDocs;
          updatedDocs = map (relink transactions) prevDocs
      in if changed then updatedDocs else prevDocs)"


section \<open>Missing-receipt task generator (an effect of App.tsx)\<close>

datatype TaskStatus = OPEN | IN_PROGRESS | DONE

datatype TaskPriority = LOW | MEDIUM | HIGH

record TaskItem =
  task_id :: string
  task_title :: string
  task_description :: "string option"
  task_status :: TaskStatus
  task_priority :: TaskPriority
  task_relatedTransactionId :: "string option"
  task_relatedDocumentId :: "string option"
  task_dueDate :: "Date option"
  task_createdAt :: Date
  task_completedAt :: "Date option"

text \<open>
  A \<open>Set\<close> of strings is the list of its members in insertion order, without repetition.
\<close>

definition set_add :: "string list \<Rightarrow> string \<Rightarrow> string list" where
  "set_add s x = (if x \<in> set s then s else s @ [x])"

definition new_Set :: "string list \<Rightarrow> string list" where
  "new_Set xs = foldl set_add [] xs"

definition set_delete :: "string list \<Rightarrow> string \<Rightarrow> string list" where
  "set_delete s x = removeAll x s"

text \<open>The state of the pass: \<open>nextTasks\<close>, \<open>missingIds\<close> and \<open>changed\<close>.\<close>

record TaskPass =
  nextTasks :: "TaskItem list"
  missingIds :: "string list"
  changed :: bool

text \<open>One round of \<open>prevTasks.forEach\<close>.\<close>

definition walkTask :: "Date \<Rightarrow> TaskPass \<Rightarrow> TaskItem \<Rightarrow> TaskPass" where
  "walkTask now st task =
     (if truthy_str (task_relatedTransactionId task) then
        (let related = (case task_relatedTransactionId task of Some r \<Rightarrow> r | None \<Rightarrow> []) in
         if related \<in> set (missingIds st) then
           st\<lparr>nextTasks := nextTasks st @ [task],
              missingIds := set_delete (missingIds st) related\<rparr>
         else if task_status task \<noteq> DONE then
           st\<lparr>changed := True,
              nextTasks := nextTasks st @
                [task\<lparr>task_status := DONE,
                      task_completedAt :=
                        Some (case task_completedAt task of Some c \<Rightarrow> c | None \<Rightarrow> now)\<rparr>]\<rparr>
         else st\<lparr>nextTasks := nextTasks st @ [task]\<rparr>)
      else st\<lparr>nextTasks := nextTasks st @ [task]\<rparr>)"

text \<open>\<open>new Date(now.getTime() + 7 * 24 * 60 * 60 * 1000)\<close>\<close>

fun inSevenDays :: "Date \<Rightarrow> Date" where
  "inSevenDays (Time t) = Time (t + 7 * 24 * 60 * 60 * 1000)"
| "inSevenDays Invalid_Date = Invalid_Date"

text \<open>
  The task synthesized for a transaction. \<open>toLocaleDateString\<close> and \<open>toFixed\<close> stand for
  \<open>tx.date.toLocaleDateString('de-DE')\<close> and \<open>tx.amount.toFixed(2)\<close>.
\<close>

definition newTask ::
  "(Date \<Rightarrow> string) \<Rightarrow> (number \<Rightarrow> string) \<Rightarrow> Date \<Rightarrow> AccountingTransaction \<Rightarrow> TaskItem" where
  "newTask toLocaleDateString toFixed now tx =
     \<lparr>task_id = ''task-'' @ tx_id tx,
      task_title =
        ''Beleg f'' @ [CHR 0xC3, CHR 0xBC] @ ''r ''
          @ (if tx_description tx \<noteq> [] then tx_description tx else ''Transaktion'')
          @ '' beschaffen'',
      task_description =
        Some (''Bitte laden Sie den fehlenden Beleg f'' @ [CHR 0xC3, CHR 0xBC]
          @ ''r die Transaktion vom '' @ toLocaleDateString (tx_date tx) @ '' (''
          @ toFixed (tx_amount tx) @ '' '' @ [CHR 0xE2, CHR 0x82, CHR 0xAC] @ '') nach.''),
      task_status = OPEN,
      task_priority = (if num_ge (Math_abs (tx_amount tx)) (Fin 1000) then HIGH else MEDIUM),
      task_relatedTransactionId = Some (tx_id tx),
      task_relatedDocumentId = None,
      task_dueDate = Some (inSevenDays now),
      task_createdAt = now,
      task_completedAt = None\<rparr>"

text \<open>One round of \<open>missingIds.forEach\<close>.\<close>

definition addMissing ::
  "(Date \<Rightarrow> string) \<Rightarrow> (number \<Rightarrow> string) \<Rightarrow> Date \<Rightarrow> AccountingTransaction list
     \<Rightarrow> TaskPass \<Rightarrow> string \<Rightarrow> TaskPass" where
  "addMissing toLocaleDateString toFixed now transactions st txId =
     (case find (\<lambda>t. tx_id t = txId) transactions of
        None \<Rightarrow> st
      | Some tx \<Rightarrow>
          st\<lparr>changed := True,
             nextTasks := nextTasks st @ [newTask toLocaleDateString toFixed now tx]\<rparr>)"

definition generateTasks ::
  "(Date \<Rightarrow> string) \<Rightarrow> (number \<Rightarrow> string) \<Rightarrow> Date \<Rightarrow> AccountingTransaction list
     \<Rightarrow> TaskItem list \<Rightarrow> TaskItem list" where
  "generateTasks toLocaleDateString toFixed now transactions prevTasks =
     (let missingTransactions = filter (\<lambda>tx. tx_status tx = MISSING_RECEIPT) transactions;
          st0 = \<lparr>nextTasks = [], missingIds = new_Set (map tx_id missingTransactions),
                 changed = False\<rparr>;
          st1 = foldl (walkTask now) st0 prevTasks;
          st2 = foldl (addMissing toLocaleDateString toFixed now transactions) st1 (missingIds st1)
      in if changed st2 then nextTasks st2 else prevTasks)"


section \<open>Document record store (server/documentStore.ts)\<close>

datatype DocumentType = Rechnung | Angebot | Bestellbestaetigung | Unbekannt

record StoredDocumentRecord =
  doc_id :: string
  doc_name :: string
  doc_originalName :: string
  doc_date :: string
  doc_year :: number
  doc_quarter :: number
  doc_source :: DocumentSource
  doc_status :: DocumentStatus
  doc_fileUrl :: string
  doc_invoiceType :: InvoiceType
  doc_documentType :: "DocumentType option"
  doc_createdAt :: string
  doc_updatedAt :: string
  doc_vendor :: "string option"
  doc_totalAmount :: "number option"
  doc_vatAmount :: "number option"
  doc_invoiceNumber :: "string option"
  doc_taxCategory :: "string option"
  doc_tags :: "string list option"
  doc_errorMessage :: "string option"
  doc_storageLocationId :: "string option"
  doc_linkedTransactionIds :: "string list option"
  doc_textContent :: "string option"
  doc_fileHash :: "string option"
  doc_duplicateOfId :: "string option"
  doc_duplicateIgnored :: "bool option"

text \<open>
  \<open>Partial<StoredDocumentRecord>\<close>: \<open>None\<close> is a key the patch does not have. For an
  optional property the patch may also carry the key with the value \<open>undefined\<close>
  (\<open>Some None\<close>).
\<close>

record DocumentPatch =
  p_id :: "string option"
  p_name :: "string option"
  p_originalName :: "string option"
  p_date :: "string option"
  p_year :: "number option"
  p_quarter :: "number option"
  p_source :: "DocumentSource option"
  p_status :: "DocumentStatus option"
  p_fileUrl :: "string option"
  p_invoiceType :: "InvoiceType option"
  p_documentType :: "DocumentType option option"
  p_createdAt :: "string option"
  p_updatedAt :: "string option"
  p_vendor :: "string option option"
  p_totalAmount :: "number option option"
  p_vatAmount :: "number option option"
  p_invoiceNumber :: "string option option"
  p_taxCategory :: "string option option"
  p_tags :: "string list option option"
  p_errorMessage :: "string option option"
  p_storageLocationId :: "string option option"
  p_linkedTransactionIds :: "string list option option"
  p_textContent :: "string option option"
  p_fileHash :: "string option option"
  p_duplicateOfId :: "string option option"
  p_duplicateIgnored :: "bool option option"

text \<open>The clock of a call: \<open>now.toISOString()\<close>, \<open>now.getFullYear()\<close>, \<open>now.getMonth()\<close>.\<close>

record Clock =
  toISOString :: string
  getFullYear :: int
  getMonth :: int

record AddDocumentParams =
  originalName :: string
  storedFilename :: string
  source :: DocumentSource
  mimeType :: string

text \<open>\<open>d => d.fileHash === fileHash && !d.duplicateIgnored\<close>\<close>

definition sameHash :: "string \<Rightarrow> StoredDocumentRecord \<Rightarrow> bool" where
  "sameHash fileHash d = (doc_fileHash d = Some fileHash \<and> doc_duplicateIgnored d \<noteq> Some True)"

text \<open>
  \<open>addDocument\<close>. \<open>newId\<close> is what \<open>genId()\<close> returns, \<open>fileHash\<close> what \<open>hashFile\<close> returns
  (the SHA-256 digest in hexadecimal, or \<open>undefined\<close> when the file cannot be read). The
  store is the module's \<open>cache\<close>; the function returns the record and the new cache.
  Compressing the file afterwards changes neither.
\<close>

definition addDocument ::
  "string \<Rightarrow> Clock \<Rightarrow> string option \<Rightarrow> AddDocumentParams \<Rightarrow> StoredDocumentRecord list
     \<Rightarrow> StoredDocumentRecord \<times> StoredDocumentRecord list" where
  "addDocument newId now fileHash params cache =
     (let existing = (if truthy_str fileHash
                      then find (sameHash (case fileHash of Some h \<Rightarrow> h | None \<Rightarrow> [])) cache
                      else None);
          duplicateOfId = (case existing of Some e \<Rightarrow> Some (doc_id e) | None \<Rightarrow> None);
          status = (case existing of Some e \<Rightarrow> POTENTIAL_DUPLICATE | None \<Rightarrow> ANALYZING);
          record =
            \<lparr>doc_id = newId,
             doc_name = originalName params,
             doc_originalName = originalName params,
             doc_date = toISOString now,
             doc_year = Fin (of_int (getFullYear now)),
             doc_quarter = Fin (of_int ((getMonth now + 3) div 3)),
             doc_source = source params,
             doc_status = status,
             doc_fileUrl = ''/uploads/'' @ storedFilename params,
             doc_invoiceType = INCOMING,
             doc_documentType = Some Unbekannt,
             doc_createdAt = toISOString now,
             doc_updatedAt = toISOString now,
             doc_vendor = None, doc_totalAmount = None, doc_vatAmount = None,
             doc_invoiceNumber = None, doc_taxCategory = None,
             doc_tags = Some [],
             doc_errorMessage = None, doc_storageLocationId = None,
             doc_linkedTransactionIds = Some [],
             doc_textContent = None,
             doc_fileHash = fileHash,
             doc_duplicateOfId = duplicateOfId,
             doc_duplicateIgnored = None\<rparr>
      in (record, cache @ [record]))"

text \<open>\<open>{ ...doc, ...patch }\<close>: a key of the patch overwrites the property.\<close>

definition patched :: "'a option \<Rightarrow> 'a \<Rightarrow> 'a" where
  "patched p old = (case p of Some v \<Rightarrow> v | None \<Rightarrow> old)"

definition applyPatch :: "StoredDocumentRecord \<Rightarrow> DocumentPatch \<Rightarrow> StoredDocumentRecord" where
  "applyPatch doc patch =
     \<lparr>doc_id = patched (p_id patch) (doc_id doc),
      doc_name = patched (p_name patch) (doc_name doc),
      doc_originalName = patched (p_originalName patch) (doc_originalName doc),
      doc_date = patched (p_date patch) (doc_date doc),
      doc_year = patched (p_year patch) (doc_year doc),
      doc_quarter = patched (p_quarter patch) (doc_quarter doc),
      doc_source = patched (p_source patch) (doc_source doc),
      doc_status = patched (p_status patch) (doc_status doc),
      doc_fileUrl = patched (p_fileUrl patch) (doc_fileUrl doc),
      doc_invoiceType = patched (p_invoiceType patch) (doc_invoiceType doc),
      doc_documentType = patched (p_documentType patch) (doc_documentType doc),
      doc_createdAt = patched (p_createdAt patch) (doc_createdAt doc),
      doc_updatedAt = patched (p_updatedAt patch) (doc_updatedAt doc),
      doc_vendor = patched (p_vendor patch) (doc_vendor doc),
      doc_totalAmount = patched (p_totalAmount patch) (doc_totalAmount doc),
      doc_vatAmount = patched (p_vatAmount patch) (doc_vatAmount doc),
      doc_invoiceNumber = patched (p_invoiceNumber patch) (doc_invoiceNumber doc),
      doc_taxCategory = patched (p_taxCategory patch) (doc_taxCategory doc),
      doc_tags = patched (p_tags patch) (doc_tags doc),
      doc_errorMessage = patched (p_errorMessage patch) (doc_errorMessage doc),
      doc_storageLocationId = patched (p_storageLocationId patch) (doc_storageLocationId doc),
      doc_linkedTransactionIds =
        patched (p_linkedTransactionIds patch) (doc_linkedTransactionIds doc),
      doc_textContent = patched (p_textContent patch) (doc_textContent doc),
      doc_fileHash = patched (p_fileHash patch) (doc_fileHash doc),
      doc_duplicateOfId = patched (p_duplicateOfId patch) (doc_duplicateOfId doc),
      doc_duplicateIgnored = patched (p_duplicateIgnored patch) (doc_duplicateIgnored doc)\<rparr>"

text \<open>\<open>cache.findIndex(pred)\<close>: the first index whose element satisfies \<open>pred\<close>; \<open>None\<close> is -1.\<close>

fun findIndex :: "('a \<Rightarrow> bool) \<Rightarrow> 'a list \<Rightarrow> nat option" where
  "findIndex pred [] = None"
| "findIndex pred (x # xs) =
     (if pred x then Some 0 else map_option Suc (findIndex pred xs))"

text \<open>
  \<open>updateDocument\<close>. \<open>nowIso\<close> is \<open>new Date().toISOString()\<close>. The result is the returned
  record (\<open>None\<close> for \<open>null\<close>) and the cache after the call.
\<close>

definition updateDocument ::
  "string \<Rightarrow> string \<Rightarrow> DocumentPatch \<Rightarrow> StoredDocumentRecord list
     \<Rightarrow> StoredDocumentRecord option \<times> StoredDocumentRecord list" where
  "updateDocument nowIso ident patch cache =
     (case findIndex (\<lambda>d. doc_id d = ident) cache of
        None \<Rightarrow> (None, cache)
      | Some idx \<Rightarrow>
          (let updated = (applyPatch (cache ! idx) patch)\<lparr>doc_id := ident, doc_updatedAt := nowIso\<rparr>
           in (Some updated, cache[idx := updated])))"

text \<open>Concrete uploads and a patch that carries another id.\<close>

definition clock_1 :: Clock where
  "clock_1 = \<lparr>toISOString = ''2024-05-01T10:00:00.000Z'', getFullYear = 2024, getMonth = 4\<rparr>"

definition upload_params :: AddDocumentParams where
  "upload_params = \<lparr>originalName = ''beleg.pdf'', storedFilename = ''1-ab-beleg.pdf'',
     source = DS_LOCAL, mimeType = ''application/pdf''\<rparr>"

definition empty_patch :: DocumentPatch where
  "empty_patch =
     \<lparr>p_id = None, p_name = None, p_originalName = None, p_date = None, p_year = None,
      p_quarter = None, p_source = None, p_status = None, p_fileUrl = None,
      p_invoiceType = None, p_documentType = None, p_createdAt = None, p_updatedAt = None,
      p_vendor = None, p_totalAmount = None, p_vatAmount = None, p_invoiceNumber = None,
      p_taxCategory = None, p_tags = None, p_errorMessage = None, p_storageLocationId = None,
      p_linkedTransactionIds = None, p_textContent = None, p_fileHash = None,
      p_duplicateOfId = None, p_duplicateIgnored = None\<rparr>"

definition other_id_patch :: DocumentPatch where
  "other_id_patch =
     empty_patch\<lparr>p_id := Some ''doc-9'', p_vendor := Some (Some ''Bauhaus''),
                 p_updatedAt := Some ''1999-01-01T00:00:00.000Z''\<rparr>"


text \<open>Three uploads of the same bytes, one after the other, each into the cache the
  previous one left.\<close>

definition upload1 ::
  "string \<Rightarrow> string \<Rightarrow> Clock \<Rightarrow> AddDocumentParams \<Rightarrow> StoredDocumentRecord list
     \<Rightarrow> StoredDocumentRecord \<times> StoredDocumentRecord list" where
  "upload1 h i1 n1 q1 cache = addDocument i1 n1 (Some h) q1 cache"

definition upload2 ::
  "string \<Rightarrow> string \<Rightarrow> Clock \<Rightarrow> AddDocumentParams \<Rightarrow> string \<Rightarrow> Clock \<Rightarrow> AddDocumentParams
     \<Rightarrow> StoredDocumentRecord list \<Rightarrow> StoredDocumentRecord \<times> StoredDocumentRecord list" where
  "upload2 h i1 n1 q1 i2 n2 q2 cache =
     addDocument i2 n2 (Some h) q2 (snd (upload1 h i1 n1 q1 cache))"

definition upload3 ::
  "string \<Rightarrow> string \<Rightarrow> Clock \<Rightarrow> AddDocumentParams \<Rightarrow> string \<Rightarrow> Clock \<Rightarrow> AddDocumentParams
     \<Rightarrow> string \<Rightarrow> Clock \<Rightarrow> AddDocumentParams
     \<Rightarrow> StoredDocumentRecord list \<Rightarrow> StoredDocumentRecord \<times> StoredDocumentRecord list" where
  "upload3 h i1 n1 q1 i2 n2 q2 i3 n3 q3 cache =
     addDocument i3 n3 (Some h) q3 (snd (upload2 h i1 n1 q1 i2 n2 q2 cache))"

definition first_upload :: StoredDocumentRecord where
  "first_upload = fst (addDocument ''doc-1'' clock_1 (Some ''ab12'') upload_params [])"


section \<open>The invariants of the link synchronizer, and concrete states\<close>

text \<open>
  A transaction agrees with the documents when its status is COMPLETE exactly if its
  \<open>documentId\<close> is set and names one of them.
\<close>

definition status_agrees :: "Document list \<Rightarrow> AccountingTransaction \<Rightarrow> bool" where
  "status_agrees documents tx =
     ((tx_status tx = COMPLETE) =
      (case tx_documentId tx of Some d \<Rightarrow> d \<in> set (map d_id documents) | None \<Rightarrow> False))"

text \<open>The ids of the transactions that name a document.\<close>

definition link_set :: "AccountingTransaction list \<Rightarrow> Document \<Rightarrow> string set" where
  "link_set transactions doc =
     set (map tx_id (filter (\<lambda>t. tx_documentId t = Some (d_id doc)) transactions))"

definition links_consistent :: "AccountingTransaction list \<Rightarrow> Document \<Rightarrow> bool" where
  "links_consistent transactions doc = (set (currentIdsOf doc) = link_set transactions doc)"

definition doc_D1 :: Document where
  "doc_D1 =
     \<lparr>d_id = ''D1'', d_name = ''Rechnung.pdf'', d_date = Time 0, d_year = 2024, d_quarter = 1,
      d_source = DS_MANUAL, d_status = OK, d_fileUrl = ''/uploads/Rechnung.pdf'', d_file = None,
      d_textContent = None, d_vendor = None, d_totalAmount = None, d_vatAmount = None,
      d_invoiceNumber = Some ''INV-1'', d_invoiceType = OUTGOING, d_taxCategory = None,
      d_lexoffice = None, d_errorMessage = None, d_storageLocationId = None, d_tags = None,
      d_linkedTransactionIds = None, d_ocrMetadata = None\<rparr>"

text \<open>A transaction from the ledger provider that is linked to \<open>doc_D1\<close>, and one more.\<close>

definition tx_A :: AccountingTransaction where
  "tx_A =
     \<lparr>tx_id = ''tx-A'', tx_externalId = Some ''A'', tx_date = Time 0, tx_description = ''Miete'',
      tx_amount = Fin 100, tx_invoiceType = OUTGOING, tx_taxCategory = ''Einnahmen'',
      tx_documentId = Some ''D1'', tx_status = COMPLETE, tx_source = SRC_LEXOFFICE,
      tx_notes = None, tx_createdAt = Time 0, tx_updatedAt = Time 0\<rparr>"

definition tx_B :: AccountingTransaction where
  "tx_B = tx_A\<lparr>tx_id := ''tx-B'', tx_externalId := Some ''B''\<rparr>"


section \<open>The task generator, round by round\<close>

text \<open>
  The id of a transaction that is entered by hand (components/AccountingView.tsx):
  \<open>txn-<Date.now()>-<six characters of Math.random()>\<close>.
\<close>

definition generateTransactionId :: "string \<Rightarrow> string \<Rightarrow> string" where
  "generateTransactionId time random = ''txn-'' @ time @ ''-'' @ random"


text \<open>The task a round of the walk appends.\<close>

definition walked :: "Date \<Rightarrow> string list \<Rightarrow> TaskItem \<Rightarrow> TaskItem" where
  "walked now missing task =
     (case task_relatedTransactionId task of
        None \<Rightarrow> task
      | Some r \<Rightarrow>
          if r = [] \<or> r \<in> set missing \<or> task_status task = DONE then task
          else task\<lparr>task_status := DONE,
                    task_completedAt :=
                      Some (case task_completedAt task of Some c \<Rightarrow> c | None \<Rightarrow> now)\<rparr>)"

text \<open>The ids that are left after a round of the walk.\<close>

definition still_missing :: "string list \<Rightarrow> TaskItem \<Rightarrow> string list" where
  "still_missing missing task =
     (case task_relatedTransactionId task of
        None \<Rightarrow> missing
      | Some r \<Rightarrow> if r \<noteq> [] \<and> r \<in> set missing then removeAll r missing else missing)"

text \<open>Whether a round of the walk closes its task.\<close>

definition marks_done :: "string list \<Rightarrow> TaskItem \<Rightarrow> bool" where
  "marks_done missing task =
     (case task_relatedTransactionId task of
        None \<Rightarrow> False
      | Some r \<Rightarrow> r \<noteq> [] \<and> r \<notin> set missing \<and> task_status task \<noteq> DONE)"

text \<open>The tasks the second loop appends for the ids that are left.\<close>

definition tasksFor ::
  "(Date \<Rightarrow> string) \<Rightarrow> (number \<Rightarrow> string) \<Rightarrow> Date \<Rightarrow> AccountingTransaction list
     \<Rightarrow> string list \<Rightarrow> TaskItem list" where
  "tasksFor f g now transactions ids =
     concat (map (\<lambda>x. case find (\<lambda>t. tx_id t = x) transactions of
                        None \<Rightarrow> [] | Some tx \<Rightarrow> [newTask f g now tx]) ids)"

text \<open>A transaction without receipt, and stand-ins for the two formatting functions.\<close>

definition tx_missing :: AccountingTransaction where
  "tx_missing = tx_A\<lparr>tx_documentId := None, tx_status := MISSING_RECEIPT\<rparr>"

definition fmt_date :: "Date \<Rightarrow> string" where "fmt_date d = ''1.1.1970''"

definition fmt_amount :: "number \<Rightarrow> string" where "fmt_amount n = ''100.00''"


chapter \<open>Properties\<close>

section \<open>Rounding to a double\<close>

lemma floor_log2:
  assumes "2 ^ e \<le> x" and "x < 2 ^ Suc e"
  shows "\<lfloor>log 2 x\<rfloor> = int e"
proof -
  have "(0::real) < 2 ^ e" by simp
  with assms(1) have x: "0 < x" by linarith
  have "real e \<le> log 2 x"
    using assms(1) x by (simp add: le_log_iff powr_realpow)
  moreover have "log 2 x < real e + 1"
    using assms(2) x by (simp add: log_less_iff powr_realpow powr_add)
  ultimately show ?thesis by (simp add: floor_eq_iff)
qed

lemma round_to_double_normal:
  assumes "2 ^ e \<le> \<bar>x\<bar>" and "\<bar>x\<bar> < 2 ^ Suc e" and "e \<le> 52"
  shows "round_to_double x = of_int (round_half_even (x * 2 ^ (52 - e))) / 2 ^ (52 - e)"
proof -
  have "(0::real) < 2 ^ e" by simp
  with assms(1) have "0 < \<bar>x\<bar>" by linarith
  then have x: "x \<noteq> 0" by simp
  have e: "\<lfloor>log 2 \<bar>x\<bar>\<rfloor> = int e" by (rule floor_log2 [OF assms(1,2)])
  have "real e - 52 = - real (52 - e)"
    using assms(3) by simp
  then have "(2::real) powr (real e - 52) = 2 powr (- real (52 - e))"
    by (rule arg_cong)
  also have "\<dots> = inverse (2 powr real (52 - e))"
    by (rule powr_minus)
  also have "\<dots> = 1 / 2 ^ (52 - e)"
    by (simp only: powr_realpow [of 2, simplified] inverse_eq_divide)
  finally have ulp: "(2::real) powr (real e - 52) = 1 / 2 ^ (52 - e)" .
  show ?thesis
    by (simp add: round_to_double_def x e Let_def ulp)
qed

lemma round_half_even_int: "round_half_even (of_int k) = k"
  by (simp add: round_half_even_def)

lemma round_to_double_int:
  assumes "x \<in> \<int>" and "\<bar>x\<bar> < 2 ^ 53"
  shows "round_to_double x = x"
proof (cases "x = 0")
  case True
  then show ?thesis by (simp add: round_to_double_def)
next
  case False
  from assms(1) obtain m where m: "x = of_int m" by (auto elim: Ints_cases)
  with False have m1: "1 \<le> \<bar>x\<bar>" by (cases "m = 0") (auto simp: m)
  define e where "e = nat \<lfloor>log 2 \<bar>x\<bar>\<rfloor>"
  have l0: "0 \<le> log 2 \<bar>x\<bar>" using m1 by simp
  have fl: "0 \<le> \<lfloor>log 2 \<bar>x\<bar>\<rfloor>" using l0 by simp
  have "real e = of_int \<lfloor>log 2 \<bar>x\<bar>\<rfloor>"
    unfolding e_def using fl by simp
  then have "real e \<le> log 2 \<bar>x\<bar>" "log 2 \<bar>x\<bar> < real e + 1"
    by linarith+
  then have b: "2 ^ e \<le> \<bar>x\<bar>" "\<bar>x\<bar> < 2 ^ Suc e"
    using m1 by (simp_all add: le_log_iff log_less_iff powr_realpow powr_add)
  have "(2::real) ^ e < 2 ^ 53" using b(1) assms(2) by linarith
  then have "e < 53" by (rule power_less_imp_less_exp [rotated]) simp
  then have e52: "e \<le> 52" by simp
  have "x * 2 ^ (52 - e) = of_int (m * 2 ^ (52 - e))" by (simp add: m)
  then have "round_half_even (x * 2 ^ (52 - e)) = m * 2 ^ (52 - e)"
    by (simp only: round_half_even_int)
  then show ?thesis
    using round_to_double_normal [OF b e52] by (simp add: m)
qed


lemma round_half_even_bound: "\<bar>real_of_int (round_half_even y)\<bar> \<le> \<bar>y\<bar> + 1"
  unfolding round_half_even_def Let_def by (simp; linarith)

lemma as_double_normal:
  assumes "2 ^ e \<le> \<bar>x\<bar>" and "\<bar>x\<bar> < 2 ^ Suc e" and "e \<le> 52"
  shows "as_double x = Fin (of_int (round_half_even (x * 2 ^ (52 - e))) / 2 ^ (52 - e))"
proof -
  let ?k = "real_of_int (round_half_even (x * 2 ^ (52 - e)))"
  let ?r = "?k / 2 ^ (52 - e)"
  have r: "round_to_double x = ?r" by (rule round_to_double_normal [OF assms])
  have "\<bar>x * 2 ^ (52 - e)\<bar> = \<bar>x\<bar> * 2 ^ (52 - e)" by (simp add: abs_mult)
  also have "\<dots> < 2 ^ Suc e * 2 ^ (52 - e)" using assms(2) by simp
  also have "\<dots> = 2 ^ 53" using assms(3) by (simp flip: power_add)
  finally have "\<bar>?k\<bar> < 2 ^ 53 + 1"
    using round_half_even_bound [of "x * 2 ^ (52 - e)"] by linarith
  moreover have "\<bar>?r\<bar> \<le> \<bar>?k\<bar>"
  proof -
    have "\<bar>?r\<bar> = \<bar>?k\<bar> / 2 ^ (52 - e)" by (simp add: abs_divide)
    also have "\<dots> \<le> \<bar>?k\<bar> / 1" by (rule frac_le) simp_all
    finally show ?thesis by simp
  qed
  ultimately have "\<bar>?r\<bar> < 2 ^ 53 + 1" by linarith
  moreover have "(2::real) ^ 53 + 1 < 2 ^ 1024"
  proof -
    have "(2::real) ^ 53 + 1 \<le> 2 ^ 53 + 2 ^ 53" by simp
    also have "\<dots> = 2 ^ 54" by simp
    also have "\<dots> < 2 ^ 1024" by (rule power_strict_increasing) simp_all
    finally show ?thesis .
  qed
  ultimately have "\<bar>?r\<bar> < 2 ^ 1024" by linarith
  then have "\<not> 2 ^ 1024 \<le> ?r" "\<not> ?r \<le> - (2 ^ 1024)" by linarith+
  then show ?thesis unfolding as_double_def Let_def r by (simp only: if_False)
qed

lemma as_double_int:
  assumes "x \<in> \<int>" and "\<bar>x\<bar> < 2 ^ 53"
  shows "as_double x = Fin x"
proof -
  have r: "round_to_double x = x" by (rule round_to_double_int [OF assms])
  have "(2::real) ^ 53 < 2 ^ 1024" by (rule power_strict_increasing) simp_all
  with assms(2) have "\<bar>x\<bar> < 2 ^ 1024" by linarith
  then have "\<not> 2 ^ 1024 \<le> x" "\<not> x \<le> - (2 ^ 1024)" by linarith+
  then show ?thesis unfolding as_double_def Let_def r by (simp only: if_False)
qed

section \<open>Confidence clamping\<close>
















section \<open>Synthesized warnings\<close>

text \<open>The warnings of the caller stay, in their order, at the front of the result.\<close>

lemma deriveDefaultWarnings_keeps_caller_warnings:
  "\<exists>extra. deriveDefaultWarnings result averageConfidence
      = (case ar_warnings result of Some ws \<Rightarrow> ws | None \<Rightarrow> []) @ extra"
  by (simp add: deriveDefaultWarnings_def Let_def)

lemma ensure_zero_total_warnings:
  "ar_warnings (ensureExtendedAnalysisData toFixed zero_total_analysis) = Some [WARN_TOTAL_AMOUNT]"
  by (simp add: zero_total_analysis_def ensureExtendedAnalysisData_def Let_def
      deriveDefaultWarnings_def invalid_total_def baseFields_def buildDefaultFieldConfidences_def
      sum_confidence_def clampConfidence_def with_description_def synchronizeField_def num_le_def
      as_double_int as_double_normal [where e = 6] round_half_even_def)

text \<open>
  C4. The warning about the total amount is appended whenever the amount is not positive,
  also when the caller's list already holds it: for an analysis with total amount 0 that
  comes with this very warning, the normalizer returns it twice. That input is what a second
  normalization of the normalizer's own output sees (\<open>buildOcrMetadataFromAnalysis\<close> runs
  \<open>ensureExtendedAnalysisData\<close> on the result of \<open>analyzeDocument\<close>, which has run it before).
\<close>

theorem total_amount_warning_duplicated:
  "ar_warnings (ensureExtendedAnalysisData toFixed
       (zero_total_analysis\<lparr>ar_warnings := Some [WARN_TOTAL_AMOUNT]\<rparr>))
     = Some [WARN_TOTAL_AMOUNT, WARN_TOTAL_AMOUNT]
   \<and> ar_warnings (ensureExtendedAnalysisData toFixed
         (ensureExtendedAnalysisData toFixed zero_total_analysis))
     = Some [WARN_TOTAL_AMOUNT, WARN_TOTAL_AMOUNT]"
  by (simp add: zero_total_analysis_def ensureExtendedAnalysisData_def Let_def
      deriveDefaultWarnings_def invalid_total_def baseFields_def buildDefaultFieldConfidences_def
      sum_confidence_def clampConfidence_def with_description_def synchronizeField_def num_le_def
      clampField_def as_double_int as_double_normal [where e = 6] round_half_even_def)


section \<open>Reconciliation engine\<close>

lemma indexByExternalId_snoc:
  "indexByExternalId (txs @ [t]) = indexEntry (indexByExternalId txs) (t, length txs)"
  by (simp add: indexByExternalId_def)

lemma indexByExternalId_Some:
  "indexByExternalId txs e = Some i \<Longrightarrow>
     i < length txs \<and> tx_externalId (txs ! i) = Some e \<and> e \<noteq> []"
proof (induction txs arbitrary: i rule: rev_induct)
  case Nil
  then show ?case by (simp add: indexByExternalId_def)
next
  case (snoc t txs)
  show ?case
  proof (cases "tx_externalId t = Some e \<and> e \<noteq> []")
    case True
    with snoc.prems have "i = length txs"
      by (simp add: indexByExternalId_snoc indexEntry_def)
    with True show ?thesis by simp
  next
    case False
    with snoc.prems have "indexByExternalId txs e = Some i"
      by (auto simp: indexByExternalId_snoc indexEntry_def split: option.splits if_splits)
    from snoc.IH [OF this] show ?thesis by (simp add: nth_append)
  qed
qed

lemma indexByExternalId_None:
  "indexByExternalId txs e = None \<longleftrightarrow>
     (e = [] \<or> \<not> list_ex (\<lambda>t. tx_externalId t = Some e) txs)"
proof (induction txs rule: rev_induct)
  case Nil
  then show ?case by (simp add: indexByExternalId_def)
next
  case (snoc t txs)
  then show ?case
    by (auto simp: indexByExternalId_snoc indexEntry_def split: option.splits)
qed

lemma upsert_snoc:
  "upsertTransactionsFromLexoffice parseDate now (incoming @ [p]) existing linked =
     upsertStep parseDate now linked (indexByExternalId existing)
       (upsertTransactionsFromLexoffice parseDate now incoming existing linked) p"
  by (simp add: upsertTransactionsFromLexoffice_def)

lemma upsert_Nil:
  "upsertTransactionsFromLexoffice parseDate now [] existing linked =
     \<lparr>updatedTransactions = existing, notifications = [],
        imported = 0, updated = 0, skipped = 0, missingReceipts = 0\<rparr>"
  by (simp add: upsertTransactionsFromLexoffice_def)

lemma updateExisting_keeps:
  "tx_id (updateExisting parseDate now linked p t) = tx_id t"
  "tx_externalId (updateExisting parseDate now linked p t) = tx_externalId t"
  by (simp_all add: updateExisting_def Let_def)

lemma upsert_shape:
  "\<exists>ys. updatedTransactions (upsertTransactionsFromLexoffice parseDate now incoming existing linked)
          = ys @ map (newTransaction parseDate now linked) (filter (unindexed existing) incoming)
      \<and> length ys = length existing
      \<and> map tx_id ys = map tx_id existing
      \<and> map tx_externalId ys = map tx_externalId existing"
proof (induction incoming rule: rev_induct)
  case Nil
  then show ?case by (simp add: upsert_Nil)
next
  case (snoc p incoming)
  let ?r = "upsertTransactionsFromLexoffice parseDate now incoming existing linked"
  from snoc obtain ys where ys:
    "updatedTransactions ?r = ys @ map (newTransaction parseDate now linked) (filter (unindexed existing) incoming)"
    "length ys = length existing" "map tx_id ys = map tx_id existing"
    "map tx_externalId ys = map tx_externalId existing"
    by blast
  show ?case
  proof (cases "indexByExternalId existing (pl_id p)")
    case None
    then have u: "unindexed existing p" by (simp add: unindexed_def)
    show ?thesis
      by (rule exI [of _ ys]) (simp add: upsert_snoc upsertStep_def Let_def None u ys)
  next
    case (Some i)
    then have u: "\<not> unindexed existing p" by (simp add: unindexed_def)
    have i: "i < length ys" using indexByExternalId_Some [OF Some] ys(2) by simp
    let ?v = "updateExisting parseDate now linked p (ys ! i)"
    have "map tx_id (ys[i := ?v]) = map tx_id ys"
      "map tx_externalId (ys[i := ?v]) = map tx_externalId ys"
      using i by (simp_all add: map_update updateExisting_keeps list_update_same_conv)
    then show ?thesis using i
      by (intro exI [of _ "ys[i := ?v]"])
         (simp add: upsert_snoc upsertStep_def Let_def Some u ys list_update_append1 nth_append)
  qed
qed

lemma upsert_counts:
  "imported (upsertTransactionsFromLexoffice parseDate now incoming existing linked)
     = length (filter (unindexed existing) incoming)
   \<and> updated (upsertTransactionsFromLexoffice parseDate now incoming existing linked)
     = length (filter (\<lambda>p. \<not> unindexed existing p) incoming)
   \<and> skipped (upsertTransactionsFromLexoffice parseDate now incoming existing linked) = 0
   \<and> length (notifications (upsertTransactionsFromLexoffice parseDate now incoming existing linked))
     = length incoming"
proof (induction incoming rule: rev_induct)
  case Nil
  then show ?case by (simp add: upsert_Nil)
next
  case (snoc p incoming)
  then show ?case
    by (cases "indexByExternalId existing (pl_id p)")
       (simp_all add: upsert_snoc upsertStep_def Let_def unindexed_def [of existing p])
qed


lemma matchedPayloads_snoc:
  "matchedPayloads existing (incoming @ [p]) i
     = matchedPayloads existing incoming i
       @ (if indexByExternalId existing (pl_id p) = Some i then [p] else [])"
  by (simp add: matchedPayloads_def)

lemma applyUpdates_snoc:
  "applyUpdates parseDate now linked (ps @ [p]) old
     = updateExisting parseDate now linked p (applyUpdates parseDate now linked ps old)"
  by (simp add: applyUpdates_def)

lemma upsert_exact:
  "updatedTransactions (upsertTransactionsFromLexoffice parseDate now incoming existing linked)
     = map (\<lambda>i. applyUpdates parseDate now linked (matchedPayloads existing incoming i) (existing ! i))
         [0 ..< length existing]
       @ map (newTransaction parseDate now linked) (filter (unindexed existing) incoming)"
proof (induction incoming rule: rev_induct)
  case Nil
  show ?case
    by (simp add: upsert_Nil matchedPayloads_def applyUpdates_def map_nth)
next
  case (snoc p incoming)
  let ?F = "\<lambda>inc i. applyUpdates parseDate now linked (matchedPayloads existing inc i) (existing ! i)"
  let ?A = "map (?F incoming) [0 ..< length existing]"
  let ?B = "map (newTransaction parseDate now linked) (filter (unindexed existing) incoming)"
  show ?case
  proof (cases "indexByExternalId existing (pl_id p)")
    case None
    then have u: "unindexed existing p" by (simp add: unindexed_def)
    have "?F (incoming @ [p]) = ?F incoming"
      by (rule ext) (simp add: matchedPayloads_snoc None)
    then show ?thesis
      by (simp add: upsert_snoc upsertStep_def Let_def None u snoc.IH)
  next
    case (Some j)
    then have u: "\<not> unindexed existing p" by (simp add: unindexed_def)
    have j: "j < length existing" using indexByExternalId_Some [OF Some] by simp
    have "?A [j := updateExisting parseDate now linked p (?A ! j)]
        = map (?F (incoming @ [p])) [0 ..< length existing]"
    proof (rule nth_equalityI)
      show "length (?A [j := updateExisting parseDate now linked p (?A ! j)])
          = length (map (?F (incoming @ [p])) [0 ..< length existing])"
        by simp
    next
      fix i
      assume "i < length (?A [j := updateExisting parseDate now linked p (?A ! j)])"
      then have i: "i < length existing" by simp
      show "?A [j := updateExisting parseDate now linked p (?A ! j)] ! i
          = map (?F (incoming @ [p])) [0 ..< length existing] ! i"
        using i j by (simp add: nth_list_update matchedPayloads_snoc Some applyUpdates_snoc)
    qed
    then show ?thesis using j
      by (simp add: upsert_snoc upsertStep_def Let_def Some u snoc.IH list_update_append1 nth_append)
  qed
qed

lemma applyUpdates_Nil: "applyUpdates parseDate now linked [] old = old"
  by (simp add: applyUpdates_def)

lemma linkAfter_Nil: "linkAfter linked [] d = d"
  by (simp add: linkAfter_def)

lemma linkAfter_snoc:
  "linkAfter linked (ps @ [p]) d
     = (case lookupDocumentId linked p of Some d' \<Rightarrow> Some d' | None \<Rightarrow> linkAfter linked ps d)"
  by (simp add: linkAfter_def split: option.split)

lemma updateExisting_fields:
  "tx_notes (updateExisting parseDate now linked p t) = tx_notes t"
  "tx_createdAt (updateExisting parseDate now linked p t) = tx_createdAt t"
  "tx_documentId (updateExisting parseDate now linked p t)
     = (case lookupDocumentId linked p of Some d \<Rightarrow> Some d | None \<Rightarrow> tx_documentId t)"
  "tx_description (updateExisting parseDate now linked p t) = pl_description p"
  "tx_amount (updateExisting parseDate now linked p t) = pl_amount p"
  "tx_invoiceType (updateExisting parseDate now linked p t) = pl_invoiceType p"
  "tx_taxCategory (updateExisting parseDate now linked p t) = pl_taxCategory p"
  "tx_date (updateExisting parseDate now linked p t) = parseDate (pl_date p)"
  "tx_updatedAt (updateExisting parseDate now linked p t) = now"
  "tx_source (updateExisting parseDate now linked p t) = SRC_LEXOFFICE"
  "tx_status (updateExisting parseDate now linked p t) = statusOf (lookupDocumentId linked p)"
  by (simp_all add: updateExisting_def Let_def)

lemma applyUpdates_keeps:
  "tx_id (applyUpdates parseDate now linked ps old) = tx_id old"
  "tx_externalId (applyUpdates parseDate now linked ps old) = tx_externalId old"
  "tx_notes (applyUpdates parseDate now linked ps old) = tx_notes old"
  "tx_createdAt (applyUpdates parseDate now linked ps old) = tx_createdAt old"
  "tx_documentId (applyUpdates parseDate now linked ps old) = linkAfter linked ps (tx_documentId old)"
  by (induction ps rule: rev_induct)
     (simp_all add: applyUpdates_Nil applyUpdates_snoc linkAfter_Nil linkAfter_snoc
        updateExisting_keeps updateExisting_fields split: option.split)

lemma applyUpdates_written:
  "ps \<noteq> [] \<Longrightarrow> writtenOver parseDate now linked ps old (applyUpdates parseDate now linked ps old)"
proof (cases ps rule: rev_cases)
  case Nil
  assume "ps \<noteq> []"
  with Nil show ?thesis by simp
next
  case (snoc qs p)
  have "tx_documentId (applyUpdates parseDate now linked ps old) = linkAfter linked ps (tx_documentId old)"
    by (rule applyUpdates_keeps)
  then show ?thesis
    unfolding writtenOver_def applyUpdates_keeps(1-4)
    by (simp add: snoc applyUpdates_snoc updateExisting_fields)
qed

lemma position_kept:
  assumes "i < length existing"
  shows "positionKept parseDate now linked existing incoming
           (updatedTransactions (upsertTransactionsFromLexoffice parseDate now incoming existing linked)) i"
proof -
  have "updatedTransactions (upsertTransactionsFromLexoffice parseDate now incoming existing linked) ! i
      = applyUpdates parseDate now linked (matchedPayloads existing incoming i) (existing ! i)"
    using assms by (simp add: upsert_exact nth_append)
  then show ?thesis
    by (simp add: positionKept_def applyUpdates_written applyUpdates_Nil)
qed

lemma inserted_for: "insertedFor parseDate now linked p (newTransaction parseDate now linked p)"
  by (simp add: insertedFor_def newTransaction_def Let_def)

lemma upsert_notifications:
  "notifications (upsertTransactionsFromLexoffice parseDate now incoming existing linked)
     = map (notificationFor existing) incoming"
proof (induction incoming rule: rev_induct)
  case Nil
  then show ?case by (simp add: upsert_Nil)
next
  case (snoc p incoming)
  then show ?case
    by (cases "indexByExternalId existing (pl_id p)")
       (simp_all add: upsert_snoc upsertStep_def Let_def notificationFor_def unindexed_def [of existing p])
qed

lemma payload_fate:
  assumes "p \<in> set incoming"
  shows "unindexed existing p
     \<or> (\<exists>i. i < length existing \<and> p \<in> set (matchedPayloads existing incoming i))"
proof (cases "indexByExternalId existing (pl_id p)")
  case None
  then show ?thesis by (simp add: unindexed_def)
next
  case (Some i)
  then have "i < length existing" using indexByExternalId_Some by blast
  with Some assms show ?thesis by (auto simp: matchedPayloads_def)
qed

text \<open>
  C6. Every payload of a batch is inserted or updated, and none is dropped. The two counters
  add up to the size of the batch and \<open>skipped\<close> stays 0. The output list is the existing
  list, each transaction at its place with its id and external id, followed by one record
  for each payload whose id the index does not hold, in the order of the batch and with the
  data of that payload. Every other payload is sent to a position of the existing list; a
  position no payload is sent to keeps its record, and any other position carries the data
  of the last payload sent to it. Each payload leaves its notification.
\<close>

theorem upsert_never_drops:
  "imported (upsertTransactionsFromLexoffice parseDate now incoming existing linked)
     + updated (upsertTransactionsFromLexoffice parseDate now incoming existing linked)
     = length incoming
   \<and> skipped (upsertTransactionsFromLexoffice parseDate now incoming existing linked) = 0
   \<and> length (updatedTransactions (upsertTransactionsFromLexoffice parseDate now incoming existing linked))
     = length existing + imported (upsertTransactionsFromLexoffice parseDate now incoming existing linked)
   \<and> map tx_id (take (length existing)
        (updatedTransactions (upsertTransactionsFromLexoffice parseDate now incoming existing linked)))
     = map tx_id existing
   \<and> map tx_externalId (take (length existing)
        (updatedTransactions (upsertTransactionsFromLexoffice parseDate now incoming existing linked)))
     = map tx_externalId existing
   \<and> imported (upsertTransactionsFromLexoffice parseDate now incoming existing linked)
     = length (filter (unindexed existing) incoming)
   \<and> list_all2 (insertedFor parseDate now linked) (filter (unindexed existing) incoming)
        (drop (length existing)
          (updatedTransactions (upsertTransactionsFromLexoffice parseDate now incoming existing linked)))
   \<and> list_all
        (positionKept parseDate now linked existing incoming
          (updatedTransactions (upsertTransactionsFromLexoffice parseDate now incoming existing linked)))
        [0 ..< length existing]
   \<and> list_all
        (\<lambda>p. unindexed existing p
           \<or> (\<exists>i. i < length existing \<and> p \<in> set (matchedPayloads existing incoming i)))
        incoming
   \<and> notifications (upsertTransactionsFromLexoffice parseDate now incoming existing linked)
     = map (notificationFor existing) incoming"
proof -
  let ?r = "upsertTransactionsFromLexoffice parseDate now incoming existing linked"
  obtain ys where ys:
    "updatedTransactions ?r = ys @ map (newTransaction parseDate now linked) (filter (unindexed existing) incoming)"
    "length ys = length existing" "map tx_id ys = map tx_id existing"
    "map tx_externalId ys = map tx_externalId existing"
    using upsert_shape by blast
  have c: "imported ?r = length (filter (unindexed existing) incoming)"
     "updated ?r = length (filter (\<lambda>p. \<not> unindexed existing p) incoming)"
     "skipped ?r = 0"
    using upsert_counts [of parseDate now incoming existing linked] by simp_all
  have total: "imported ?r + updated ?r = length incoming"
    unfolding c using sum_length_filter_compl [of "unindexed existing" incoming] by simp
  have ins: "list_all2 (insertedFor parseDate now linked) (filter (unindexed existing) incoming)
      (drop (length existing) (updatedTransactions ?r))"
    using ys(2) by (simp add: ys(1) list_all2_map2 list_all2_same inserted_for)
  have kept: "list_all (positionKept parseDate now linked existing incoming (updatedTransactions ?r))
      [0 ..< length existing]"
    by (simp add: list_all_iff position_kept)
  have fate: "list_all
        (\<lambda>p. unindexed existing p
           \<or> (\<exists>i. i < length existing \<and> p \<in> set (matchedPayloads existing incoming i)))
        incoming"
    unfolding list_all_iff using payload_fate by blast
  have msgs: "notifications ?r = map (notificationFor existing) incoming"
    by (rule upsert_notifications)
  have basic: "length (updatedTransactions ?r) = length existing + imported ?r"
    "map tx_id (take (length existing) (updatedTransactions ?r)) = map tx_id existing"
    "map tx_externalId (take (length existing) (updatedTransactions ?r)) = map tx_externalId existing"
    using ys c by simp_all
  from total c(3) basic c(1) ins kept fate msgs show ?thesis by blast
qed

lemma unindexed_iff:
  "unindexed existing p \<longleftrightarrow>
     (pl_id p = [] \<or> \<not> list_ex (\<lambda>t. tx_externalId t = Some (pl_id p)) existing)"
  by (simp add: unindexed_def indexByExternalId_None)

lemma newTransaction_ids:
  "tx_id (newTransaction parseDate now linked p) = ''tx-'' @ pl_id p"
  "tx_externalId (newTransaction parseDate now linked p) = Some (pl_id p)"
  by (simp_all add: newTransaction_def Let_def)





lemma count_map_externalId:
  "countExternalId e txs = length (filter (\<lambda>x. x = Some e) (map tx_externalId txs))"
  by (simp add: countExternalId_def filter_map comp_def)

lemma countExternalId_pos:
  "0 < countExternalId e txs \<longleftrightarrow> list_ex (\<lambda>t. tx_externalId t = Some e) txs"
  by (simp add: countExternalId_def list_ex_iff filter_empty_conv)

lemma countExternalId_append:
  "countExternalId e (xs @ ys) = countExternalId e xs + countExternalId e ys"
  by (simp add: countExternalId_def)

lemma count_inserted:
  "countExternalId e (map (newTransaction parseDate now linked) ps)
     = length (filter (\<lambda>q. pl_id q = e) ps)"
  by (simp add: countExternalId_def filter_map comp_def newTransaction_ids)

lemma count_after_upsert:
  "countExternalId e
     (updatedTransactions (upsertTransactionsFromLexoffice parseDate now incoming existing linked))
   = countExternalId e existing
     + length (filter (\<lambda>q. pl_id q = e) (filter (unindexed existing) incoming))"
proof -
  let ?r = "upsertTransactionsFromLexoffice parseDate now incoming existing linked"
  obtain ys where ys:
    "updatedTransactions ?r = ys @ map (newTransaction parseDate now linked) (filter (unindexed existing) incoming)"
    "map tx_externalId ys = map tx_externalId existing"
    using upsert_shape by blast
  have "countExternalId e ys = countExternalId e existing"
    by (simp add: count_map_externalId ys(2))
  then show ?thesis by (simp add: ys(1) countExternalId_append count_inserted)
qed

lemma second_call:
  assumes "e \<noteq> []" and "pl_id p = e" and "0 < countExternalId e txs"
  shows "updated (upsertTransactionsFromLexoffice parseDate now [p] txs linked) = 1
    \<and> imported (upsertTransactionsFromLexoffice parseDate now [p] txs linked) = 0
    \<and> countExternalId e (updatedTransactions (upsertTransactionsFromLexoffice parseDate now [p] txs linked))
        = countExternalId e txs"
proof -
  from assms have "indexByExternalId txs (pl_id p) \<noteq> None"
    by (simp add: indexByExternalId_None countExternalId_pos)
  then obtain i where i: "indexByExternalId txs (pl_id p) = Some i" by blast
  have r: "unindexed txs p = False" using i by (simp add: unindexed_def)
  have c: "imported (upsertTransactionsFromLexoffice parseDate now [p] txs linked) = 0"
     "updated (upsertTransactionsFromLexoffice parseDate now [p] txs linked) = 1"
    using upsert_counts [of parseDate now "[p]" txs linked] by (simp_all add: r)
  have "countExternalId e (updatedTransactions (upsertTransactionsFromLexoffice parseDate now [p] txs linked))
     = countExternalId e txs"
    using count_after_upsert [of e parseDate now "[p]" txs linked] by (simp add: r)
  with c show ?thesis by simp
qed

text \<open>
  C2, amended. Let a payload with a non-empty id be imported in a batch that holds its id once,
  into a list where at most one transaction has that external id. Importing the same payload
  again into the resulting list leaves exactly one transaction with that external id, and the
  second call reports \<open>updated = 1\<close> and \<open>imported = 0\<close>.
\<close>

theorem reimport_same_payload:
  assumes "pl_id p \<noteq> []"
    and "p \<in> set batch"
    and "length (filter (\<lambda>q. pl_id q = pl_id p) batch) = 1"
    and "countExternalId (pl_id p) existing \<le> 1"
  shows "countExternalId (pl_id p)
      (updatedTransactions (upsertTransactionsFromLexoffice parseDate now2 [p]
         (updatedTransactions (upsertTransactionsFromLexoffice parseDate now1 batch existing linked1))
         linked2)) = 1
    \<and> updated (upsertTransactionsFromLexoffice parseDate now2 [p]
         (updatedTransactions (upsertTransactionsFromLexoffice parseDate now1 batch existing linked1))
         linked2) = 1
    \<and> imported (upsertTransactionsFromLexoffice parseDate now2 [p]
         (updatedTransactions (upsertTransactionsFromLexoffice parseDate now1 batch existing linked1))
         linked2) = 0"
proof -
  let ?e = "pl_id p"
  let ?L = "updatedTransactions (upsertTransactionsFromLexoffice parseDate now1 batch existing linked1)"
  have L: "countExternalId ?e ?L = countExternalId ?e existing
     + length (filter (\<lambda>q. pl_id q = ?e) (filter (unindexed existing) batch))"
    by (rule count_after_upsert)
  have one: "countExternalId ?e ?L = 1"
  proof (cases "countExternalId ?e existing = 0")
    case True
    then have "\<not> list_ex (\<lambda>t. tx_externalId t = Some ?e) existing"
      using countExternalId_pos [of ?e existing] by simp
    then have "\<And>q. pl_id q = ?e \<Longrightarrow> unindexed existing q" by (simp add: unindexed_iff)
    then have "filter (\<lambda>q. pl_id q = ?e) (filter (unindexed existing) batch)
       = filter (\<lambda>q. pl_id q = ?e) batch"
      by (auto simp: filter_filter intro: filter_cong)
    with L True assms(3) show ?thesis by simp
  next
    case False
    then have "list_ex (\<lambda>t. tx_externalId t = Some ?e) existing"
      using countExternalId_pos [of ?e existing] by simp
    then have "\<And>q. pl_id q = ?e \<Longrightarrow> \<not> unindexed existing q"
      using assms(1) by (simp add: unindexed_iff)
    then have "filter (\<lambda>q. pl_id q = ?e) (filter (unindexed existing) batch) = []"
      by (auto simp: filter_empty_conv)
    with L False assms(4) show ?thesis by simp
  qed
  then have "0 < countExternalId ?e ?L" by simp
  from second_call [OF assms(1) refl this, of parseDate now2 linked2] one
  show ?thesis by simp
qed

theorem reimport_same_payload_witness:
  "pl_id payload_A \<noteq> [] \<and> payload_A \<in> set [payload_A]
   \<and> length (filter (\<lambda>q. pl_id q = pl_id payload_A) [payload_A]) = 1
   \<and> countExternalId (pl_id payload_A) [] \<le> 1
   \<and> map tx_id (updatedTransactions (upsertTransactionsFromLexoffice (\<lambda>_. Time 0) (Time 2) [payload_A]
         (updatedTransactions (upsertTransactionsFromLexoffice (\<lambda>_. Time 0) (Time 1) [payload_A] [] Map.empty))
         Map.empty)) = [''tx-A'']
   \<and> updated (upsertTransactionsFromLexoffice (\<lambda>_. Time 0) (Time 2) [payload_A]
         (updatedTransactions (upsertTransactionsFromLexoffice (\<lambda>_. Time 0) (Time 1) [payload_A] [] Map.empty))
         Map.empty) = 1
   \<and> imported (upsertTransactionsFromLexoffice (\<lambda>_. Time 0) (Time 2) [payload_A]
         (updatedTransactions (upsertTransactionsFromLexoffice (\<lambda>_. Time 0) (Time 1) [payload_A] [] Map.empty))
         Map.empty) = 0"
  using reimport_same_payload [of payload_A "[payload_A]" "[]" "\<lambda>_. Time 0" "Time 2" "Time 1" Map.empty Map.empty]
  by (simp add: payload_A_def countExternalId_def upsertTransactionsFromLexoffice_def upsertStep_def
     Let_def indexByExternalId_def indexEntry_def newTransaction_def updateExisting_def)

text \<open>
  C2 as stated fails for a batch that holds the payload twice: both copies are inserted, and
  the re-import updates one of them, so two transactions carry the external id. It fails
  likewise when two existing transactions carry the external id already, and for a payload
  with the empty id, which the index never holds: the second call inserts it again.
\<close>

theorem reimport_counterexample:
  "countExternalId (pl_id payload_A)
      (updatedTransactions (upsertTransactionsFromLexoffice (\<lambda>_. Time 0) (Time 2) [payload_A]
         (updatedTransactions
            (upsertTransactionsFromLexoffice (\<lambda>_. Time 0) (Time 1) [payload_A, payload_A] [] Map.empty))
         Map.empty)) = 2
   \<and> countExternalId (pl_id payload_A)
      (updatedTransactions (upsertTransactionsFromLexoffice (\<lambda>_. Time 0) (Time 2) [payload_A]
         (updatedTransactions
            (upsertTransactionsFromLexoffice (\<lambda>_. Time 0) (Time 1) [payload_A] [tx_A, tx_A] Map.empty))
         Map.empty)) = 2
   \<and> imported (upsertTransactionsFromLexoffice (\<lambda>_. Time 0) (Time 2) [payload_A\<lparr>pl_id := []\<rparr>]
         (updatedTransactions
            (upsertTransactionsFromLexoffice (\<lambda>_. Time 0) (Time 1) [payload_A\<lparr>pl_id := []\<rparr>] [] Map.empty))
         Map.empty) = 1
   \<and> updated (upsertTransactionsFromLexoffice (\<lambda>_. Time 0) (Time 2) [payload_A\<lparr>pl_id := []\<rparr>]
         (updatedTransactions
            (upsertTransactionsFromLexoffice (\<lambda>_. Time 0) (Time 1) [payload_A\<lparr>pl_id := []\<rparr>] [] Map.empty))
         Map.empty) = 0"
proof -
  let ?e = "pl_id payload_A"
  have e: "?e \<noteq> []" by (simp add: payload_A_def)
  let ?L1 = "updatedTransactions
            (upsertTransactionsFromLexoffice (\<lambda>_. Time 0) (Time 1) [payload_A, payload_A] [] Map.empty)"
  have "countExternalId ?e ?L1 = 2"
    by (subst count_after_upsert) (simp add: unindexed_iff countExternalId_def)
  then have a: "countExternalId ?e
      (updatedTransactions (upsertTransactionsFromLexoffice (\<lambda>_. Time 0) (Time 2) [payload_A] ?L1 Map.empty)) = 2"
    using second_call [OF e refl, of ?L1 "\<lambda>_. Time 0" "Time 2" Map.empty] by simp
  let ?L2 = "updatedTransactions
            (upsertTransactionsFromLexoffice (\<lambda>_. Time 0) (Time 1) [payload_A] [tx_A, tx_A] Map.empty)"
  have "countExternalId ?e ?L2 = 2"
    by (subst count_after_upsert) (simp add: unindexed_iff countExternalId_def payload_A_def tx_A_def)
  then have b: "countExternalId ?e
      (updatedTransactions (upsertTransactionsFromLexoffice (\<lambda>_. Time 0) (Time 2) [payload_A] ?L2 Map.empty)) = 2"
    using second_call [OF e refl, of ?L2 "\<lambda>_. Time 0" "Time 2" Map.empty] by simp
  let ?p = "payload_A\<lparr>pl_id := []\<rparr>"
  have "unindexed txs ?p" for txs by (simp add: unindexed_iff)
  then have c: "imported (upsertTransactionsFromLexoffice (\<lambda>_. Time 0) (Time 2) [?p] txs Map.empty) = 1
     \<and> updated (upsertTransactionsFromLexoffice (\<lambda>_. Time 0) (Time 2) [?p] txs Map.empty) = 0" for txs
    using upsert_counts [of "\<lambda>_. Time 0" "Time 2" "[?p]" txs Map.empty] by simp
  from a b c show ?thesis by blast
qed


section \<open>Link synchronizer\<close>

text \<open>
  C1. A transaction that is linked to an existing document and COMPLETE is re-imported by a
  payload without an invoice number. The update path keeps the link
  (\<open>documentId ?? existing.documentId\<close>) but takes the status from the fresh lookup alone,
  so the transaction ends up MISSING_RECEIPT with its \<open>documentId\<close> still naming the
  document; the transaction-side synchronizer leaves it alone, since the document exists.
\<close>

theorem update_path_breaks_status_invariant:
  "list_all (status_agrees [doc_D1]) [tx_A]
   \<and> map (\<lambda>t. (tx_id t, tx_documentId t, tx_status t))
        (syncTransactions (Time 2) [doc_D1]
           (updatedTransactions
              (upsertTransactionsFromLexoffice (\<lambda>_. Time 0) (Time 1) [payload_A] [tx_A] Map.empty)))
      = [(''tx-A'', Some ''D1'', MISSING_RECEIPT)]
   \<and> \<not> list_all (status_agrees [doc_D1])
        (syncTransactions (Time 2) [doc_D1]
           (updatedTransactions
              (upsertTransactionsFromLexoffice (\<lambda>_. Time 0) (Time 1) [payload_A] [tx_A] Map.empty)))"
  by (simp add: status_agrees_def doc_D1_def tx_A_def payload_A_def syncTransactions_def
      danglingLink_def resetLink_def upsertTransactionsFromLexoffice_def upsertStep_def Let_def
      indexByExternalId_def indexEntry_def updateExisting_def lookupDocumentId_def statusOf_def)

text \<open>
  The document side. When no document has the empty id and no current list repeats an id,
  the pass leaves every document with the ids of the transactions that name it.
\<close>

lemma linkedByDoc_snoc: "linkedByDoc (txs @ [t]) = linkEntry (linkedByDoc txs) t"
  by (simp add: linkedByDoc_def)

lemma linkedByDoc_eq:
  "linkedByDoc txs d =
     (if d \<noteq> [] \<and> list_ex (\<lambda>t. tx_documentId t = Some d) txs
      then Some (map tx_id (filter (\<lambda>t. tx_documentId t = Some d) txs)) else None)"
proof (induction txs arbitrary: d rule: rev_induct)
  case Nil
  then show ?case by (simp add: linkedByDoc_def)
next
  case (snoc t txs)
  show ?case
  proof (cases "tx_documentId t")
    case None
    then show ?thesis by (simp add: linkedByDoc_snoc linkEntry_def snoc.IH)
  next
    case (Some d')
    then show ?thesis
      by (auto simp: linkedByDoc_snoc linkEntry_def snoc.IH list_ex_iff filter_empty_conv)
  qed
qed

lemma linkedIdsOf_eq:
  "d_id doc \<noteq> [] \<Longrightarrow>
     linkedIdsOf transactions doc
       = map tx_id (filter (\<lambda>t. tx_documentId t = Some (d_id doc)) transactions)"
  by (auto simp: linkedIdsOf_def linkedByDoc_eq list_ex_iff filter_empty_conv)

lemma same_length_subset:
  assumes "distinct xs" and "length xs = length ys" and "set xs \<subseteq> set ys"
  shows "set xs = set ys"
proof -
  have "card (set ys) \<le> length ys" by (rule card_length)
  also have "\<dots> = card (set xs)" using assms(1,2) by (simp add: distinct_card)
  finally show ?thesis using assms(3) by (simp add: card_seteq)
qed

lemma relink_consistent:
  assumes "d_id doc \<noteq> []" and "distinct (currentIdsOf doc)"
  shows "links_consistent transactions (relink transactions doc)"
proof (cases "sameMembers transactions doc")
  case True
  then have "length (currentIdsOf doc) = length (linkedIdsOf transactions doc)"
    "set (currentIdsOf doc) \<subseteq> set (linkedIdsOf transactions doc)"
    by (auto simp: sameMembers_def Let_def list_all_iff)
  from same_length_subset [OF assms(2) this]
  show ?thesis using True assms(1)
    by (simp add: relink_def links_consistent_def link_set_def linkedIdsOf_eq)
next
  case False
  then show ?thesis using assms(1)
    by (simp add: relink_def links_consistent_def link_set_def linkedIdsOf_eq currentIdsOf_def)
qed

lemma syncDocuments_map: "syncDocuments transactions docs = map (relink transactions) docs"
proof (cases "list_ex (\<lambda>doc. \<not> sameMembers transactions doc) docs")
  case True
  then show ?thesis by (simp add: syncDocuments_def Let_def)
next
  case False
  then have "map (relink transactions) docs = docs"
    by (auto simp: list_ex_iff relink_def intro: map_idI)
  with False show ?thesis by (simp add: syncDocuments_def Let_def)
qed

lemma syncDocuments_consistent:
  assumes "[] \<notin> set (map d_id docs)" and "list_all (\<lambda>doc. distinct (currentIdsOf doc)) docs"
  shows "list_all (links_consistent transactions) (syncDocuments transactions docs)"
proof -
  have "links_consistent transactions (relink transactions doc)" if "doc \<in> set docs" for doc
  proof -
    from that assms(1) have "d_id doc \<noteq> []" by force
    moreover from that assms(2) have "distinct (currentIdsOf doc)" by (simp add: list_all_iff)
    ultimately show ?thesis by (rule relink_consistent)
  qed
  then show ?thesis by (simp add: syncDocuments_map list_all_iff)
qed

text \<open>
  C3. The synchronizer compares the current and the computed ids by length and by inclusion
  of the current ones. A current list with a repeated id of the right length passes that test
  and is kept, although the transactions that name the document are others.
\<close>

theorem stale_links_survive_sync:
  "map d_linkedTransactionIds
     (syncDocuments [tx_A, tx_B] [doc_D1\<lparr>d_linkedTransactionIds := Some [''tx-A'', ''tx-A'']\<rparr>])
     = [Some [''tx-A'', ''tx-A'']]
   \<and> link_set [tx_A, tx_B] (doc_D1\<lparr>d_linkedTransactionIds := Some [''tx-A'', ''tx-A'']\<rparr>)
     = {''tx-A'', ''tx-B''}
   \<and> \<not> list_all (links_consistent [tx_A, tx_B])
        (syncDocuments [tx_A, tx_B] [doc_D1\<lparr>d_linkedTransactionIds := Some [''tx-A'', ''tx-A'']\<rparr>])"
  by (simp add: doc_D1_def tx_A_def tx_B_def syncDocuments_def sameMembers_def relink_def
      linkedIdsOf_def currentIdsOf_def linkedByDoc_def linkEntry_def links_consistent_def
      link_set_def Let_def)


section \<open>Missing-receipt tasks\<close>

lemma new_Set_aux:
  "distinct acc \<Longrightarrow> distinct (foldl set_add acc xs) \<and> set (foldl set_add acc xs) = set acc \<union> set xs"
  by (induction xs arbitrary: acc) (auto simp: set_add_def)

lemma new_Set_props: "distinct (new_Set xs) \<and> set (new_Set xs) = set xs"
  using new_Set_aux [of "[]" xs] by (simp add: new_Set_def)

lemma walkTask_eq:
  "walkTask now st task =
     st\<lparr>nextTasks := nextTasks st @ [walked now (missingIds st) task],
        missingIds := still_missing (missingIds st) task,
        changed := (changed st \<or> marks_done (missingIds st) task)\<rparr>"
  by (cases "task_relatedTransactionId task")
     (auto simp: walkTask_def walked_def still_missing_def marks_done_def set_delete_def Let_def)

lemma walked_again:
  "walked now' missing (walked now missing task) = walked now missing task"
  "still_missing missing (walked now missing task) = still_missing missing task"
  "\<not> marks_done missing (walked now missing task)"
  by (cases "task_relatedTransactionId task";
      simp add: walked_def still_missing_def marks_done_def)+

lemma walk_missing_changed:
  "missingIds st' = missingIds st \<Longrightarrow>
     missingIds (foldl (walkTask now') st' ts) = missingIds (foldl (walkTask now) st ts)"
  "missingIds st' = missingIds st \<Longrightarrow> changed st' = changed st \<Longrightarrow>
     changed (foldl (walkTask now') st' ts) = changed (foldl (walkTask now) st ts)"
proof (induction ts arbitrary: st st')
  case Nil
  { case 1 then show ?case by simp }
  { case 2 then show ?case by simp }
next
  case (Cons t ts)
  { case 1
    then show ?case using Cons.IH(1) [of "walkTask now' st' t" "walkTask now st t"]
      by (simp add: walkTask_eq) }
  { case 2
    then show ?case using Cons.IH(2) [of "walkTask now' st' t" "walkTask now st t"]
      by (simp add: walkTask_eq) }
qed

lemma walk_stable:
  "missingIds st' = missingIds st \<Longrightarrow>
   \<exists>W. nextTasks (foldl (walkTask now) st ts) = nextTasks st @ W
     \<and> foldl (walkTask now') st' W
         = st'\<lparr>nextTasks := nextTasks st' @ W,
               missingIds := missingIds (foldl (walkTask now) st ts)\<rparr>"
proof (induction ts arbitrary: st st')
  case Nil
  then show ?case by simp
next
  case (Cons t ts)
  let ?t1 = "walked now (missingIds st) t"
  let ?s = "walkTask now st t"
  let ?s' = "walkTask now' st' ?t1"
  have s': "?s' = st'\<lparr>nextTasks := nextTasks st' @ [?t1], missingIds := missingIds ?s\<rparr>"
    using Cons.prems by (simp add: walkTask_eq walked_again)
  then have "missingIds ?s' = missingIds ?s" by simp
  from Cons.IH [OF this] obtain W where W:
    "nextTasks (foldl (walkTask now) ?s ts) = nextTasks ?s @ W"
    "foldl (walkTask now') ?s' W
       = ?s'\<lparr>nextTasks := nextTasks ?s' @ W, missingIds := missingIds (foldl (walkTask now) ?s ts)\<rparr>"
    by blast
  show ?case
  proof (intro exI [of _ "?t1 # W"] conjI)
    show "nextTasks (foldl (walkTask now) st (t # ts)) = nextTasks st @ ?t1 # W"
      using W(1) by (simp add: walkTask_eq)
    show "foldl (walkTask now') st' (?t1 # W)
       = st'\<lparr>nextTasks := nextTasks st' @ ?t1 # W,
              missingIds := missingIds (foldl (walkTask now) st (t # ts))\<rparr>"
      using W(2) by (simp add: s')
  qed
qed

lemma walk_props:
  "distinct (missingIds st) \<Longrightarrow>
     distinct (missingIds (foldl (walkTask now) st ts))
     \<and> set (missingIds (foldl (walkTask now) st ts)) \<subseteq> set (missingIds st)"
proof (induction ts arbitrary: st)
  case Nil
  then show ?case by simp
next
  case (Cons t ts)
  have d: "distinct (missingIds (walkTask now st t))"
    and s: "set (missingIds (walkTask now st t)) \<subseteq> set (missingIds st)"
    using Cons.prems
    by (auto simp: walkTask_eq still_missing_def distinct_removeAll split: option.splits)
  from Cons.IH [OF d] s show ?case by auto
qed

lemma addMissing_fold:
  "foldl (addMissing f g now transactions) st ids
     = st\<lparr>nextTasks := nextTasks st @ tasksFor f g now transactions ids,
          changed := (changed st \<or> list_ex (\<lambda>x. find (\<lambda>t. tx_id t = x) transactions \<noteq> None) ids)\<rparr>"
proof (induction ids arbitrary: st)
  case Nil
  then show ?case by (simp add: tasksFor_def)
next
  case (Cons x ids)
  let ?s = "addMissing f g now transactions st x"
  have step: "?s = st\<lparr>nextTasks := nextTasks st @ tasksFor f g now transactions [x],
      changed := (changed st \<or> find (\<lambda>t. tx_id t = x) transactions \<noteq> None)\<rparr>"
    by (cases "find (\<lambda>t. tx_id t = x) transactions") (simp_all add: addMissing_def tasksFor_def)
  have app: "tasksFor f g now transactions (x # ids)
      = tasksFor f g now transactions [x] @ tasksFor f g now transactions ids"
    by (simp add: tasksFor_def)
  have "foldl (addMissing f g now transactions) st (x # ids)
      = foldl (addMissing f g now transactions) ?s ids"
    by simp
  also have "\<dots> = ?s\<lparr>nextTasks := nextTasks ?s @ tasksFor f g now transactions ids,
      changed := (changed ?s \<or> list_ex (\<lambda>x. find (\<lambda>t. tx_id t = x) transactions \<noteq> None) ids)\<rparr>"
    by (rule Cons.IH)
  also have "\<dots> = st\<lparr>nextTasks := nextTasks st @ tasksFor f g now transactions (x # ids),
      changed := (changed st \<or> list_ex (\<lambda>x. find (\<lambda>t. tx_id t = x) transactions \<noteq> None) (x # ids))\<rparr>"
    unfolding app by (subst step)+ simp
  finally show ?case .
qed

lemma find_by_id:
  "x \<in> set (map tx_id transactions) \<Longrightarrow>
     \<exists>tx. find (\<lambda>t. tx_id t = x) transactions = Some tx \<and> tx_id tx = x"
  by (induction transactions) auto

lemma tasksFor_related:
  "set ids \<subseteq> set (map tx_id transactions) \<Longrightarrow>
     map task_relatedTransactionId (tasksFor f g now transactions ids) = map Some ids"
proof (induction ids)
  case Nil
  then show ?case by (simp add: tasksFor_def)
next
  case (Cons x ids)
  then obtain tx where "find (\<lambda>t. tx_id t = x) transactions = Some tx" "tx_id tx = x"
    using find_by_id [of x transactions] by auto
  with Cons show ?case by (simp add: tasksFor_def newTask_def)
qed

lemma walk_fresh:
  "map task_relatedTransactionId ns = map Some xs \<Longrightarrow> distinct xs \<Longrightarrow> [] \<notin> set xs \<Longrightarrow>
   set xs \<subseteq> set (missingIds st) \<Longrightarrow>
   foldl (walkTask now) st ns
     = st\<lparr>nextTasks := nextTasks st @ ns,
          missingIds := filter (\<lambda>y. y \<notin> set xs) (missingIds st)\<rparr>"
proof (induction ns arbitrary: xs st)
  case Nil
  then show ?case by simp
next
  case (Cons n ns)
  then obtain x xs' where xs: "xs = x # xs'" by (cases xs) auto
  with Cons.prems have n: "task_relatedTransactionId n = Some x" "x \<noteq> []" "x \<in> set (missingIds st)"
    and rest: "map task_relatedTransactionId ns = map Some xs'" "distinct xs'" "[] \<notin> set xs'"
      "x \<notin> set xs'" "set xs' \<subseteq> set (missingIds st)"
    by auto
  let ?s = "walkTask now st n"
  have s: "?s = st\<lparr>nextTasks := nextTasks st @ [n], missingIds := removeAll x (missingIds st)\<rparr>"
    using n by (simp add: walkTask_eq walked_def still_missing_def marks_done_def)
  have "set xs' \<subseteq> set (missingIds ?s)" using rest by (auto simp: s)
  from Cons.IH [OF rest(1,2,3) this]
  have "foldl (walkTask now) ?s ns
     = ?s\<lparr>nextTasks := nextTasks ?s @ ns, missingIds := filter (\<lambda>y. y \<notin> set xs') (missingIds ?s)\<rparr>" .
  moreover have "filter (\<lambda>y. y \<notin> set xs') (removeAll x (missingIds st))
     = filter (\<lambda>y. y \<notin> set xs) (missingIds st)"
    by (auto simp: xs removeAll_filter_not_eq intro: filter_cong)
  ultimately show ?case by (simp add: s)
qed

lemma generateTasks_unfold:
  "generateTasks f g now transactions prevTasks =
     (let st1 = foldl (walkTask now)
                  \<lparr>nextTasks = [],
                   missingIds = new_Set (map tx_id (filter (\<lambda>tx. tx_status tx = MISSING_RECEIPT) transactions)),
                   changed = False\<rparr> prevTasks
      in if changed st1 \<or> list_ex (\<lambda>x. find (\<lambda>t. tx_id t = x) transactions \<noteq> None) (missingIds st1)
         then nextTasks st1 @ tasksFor f g now transactions (missingIds st1)
         else prevTasks)"
  by (simp add: generateTasks_def Let_def addMissing_fold)

text \<open>The ids the application makes are never empty.\<close>

lemma made_ids_not_empty:
  "tx_id (newTransaction parseDate now linked p) \<noteq> []"
  "generateTransactionId time random \<noteq> []"
  by (simp_all add: newTransaction_ids generateTransactionId_def)

text \<open>
  C8. The application makes the id of a transaction as \<open>tx-<external id>\<close> or as
  \<open>txn-<time>-<random>\<close>, so no transaction has the empty id. For such transactions,
  running the generator again over the same list, on the tasks the first run returned,
  returns these tasks unchanged, whatever the time of the second run: no task is added and
  no id is repeated.
\<close>

theorem regenerate_tasks_unchanged:
  assumes "[] \<notin> set (map tx_id (filter (\<lambda>tx. tx_status tx = MISSING_RECEIPT) transactions))"
  shows "generateTasks f g now2 transactions (generateTasks f g now1 transactions prevTasks)
           = generateTasks f g now1 transactions prevTasks"
proof -
  let ?M0 = "new_Set (map tx_id (filter (\<lambda>tx. tx_status tx = MISSING_RECEIPT) transactions))"
  let ?st0 = "\<lparr>nextTasks = [], missingIds = ?M0, changed = False\<rparr>"
  let ?st1 = "foldl (walkTask now1) ?st0 prevTasks"
  let ?M1 = "missingIds ?st1"
  let ?found = "list_ex (\<lambda>x. find (\<lambda>t. tx_id t = x) transactions \<noteq> None)"
  let ?N = "tasksFor f g now1 transactions ?M1"
  have M0: "distinct ?M0" "set ?M0 = set (map tx_id (filter (\<lambda>tx. tx_status tx = MISSING_RECEIPT) transactions))"
    using new_Set_props by blast+
  have M1: "distinct ?M1" "set ?M1 \<subseteq> set ?M0"
    using walk_props [of ?st0 now1 prevTasks] M0(1) by simp_all
  show ?thesis
  proof (cases "changed ?st1 \<or> ?found ?M1")
    case False
    then have r1: "generateTasks f g now1 transactions prevTasks = prevTasks"
      by (simp add: generateTasks_unfold Let_def)
    have "missingIds (foldl (walkTask now2) ?st0 prevTasks) = ?M1"
      "changed (foldl (walkTask now2) ?st0 prevTasks) = changed ?st1"
      by (rule walk_missing_changed; simp)+
    with False have "generateTasks f g now2 transactions prevTasks = prevTasks"
      by (simp add: generateTasks_unfold Let_def)
    with r1 show ?thesis by simp
  next
    case True
    obtain W where W: "nextTasks ?st1 = W"
      "foldl (walkTask now2) ?st0 W = ?st0\<lparr>nextTasks := W, missingIds := ?M1\<rparr>"
      using walk_stable [of ?st0 ?st0 now1 prevTasks now2] by auto
    from True have r1: "generateTasks f g now1 transactions prevTasks = W @ ?N"
      by (simp add: generateTasks_unfold Let_def W(1))
    let ?sW = "?st0\<lparr>nextTasks := W, missingIds := ?M1\<rparr>"
    have sub: "set ?M1 \<subseteq> set (map tx_id transactions)" using M1(2) M0(2) by auto
    have rel: "map task_relatedTransactionId ?N = map Some ?M1"
      by (rule tasksFor_related [OF sub])
    have ne: "[] \<notin> set ?M1" using assms M1(2) M0(2) by auto
    have "foldl (walkTask now2) ?sW ?N
       = ?sW\<lparr>nextTasks := nextTasks ?sW @ ?N,
              missingIds := filter (\<lambda>y. y \<notin> set ?M1) (missingIds ?sW)\<rparr>"
      by (rule walk_fresh [OF rel M1(1) ne]) simp
    then have "foldl (walkTask now2) ?st0 (W @ ?N)
       = \<lparr>nextTasks = W @ ?N, missingIds = [], changed = False\<rparr>"
      by (simp add: W(2))
    then have "generateTasks f g now2 transactions (W @ ?N) = W @ ?N"
      by (simp add: generateTasks_unfold Let_def)
    with r1 show ?thesis by simp
  qed
qed

theorem regenerate_tasks_unchanged_witness:
  "[] \<notin> set (map tx_id (filter (\<lambda>tx. tx_status tx = MISSING_RECEIPT) [tx_missing]))
   \<and> map task_id (generateTasks fmt_date fmt_amount (Time 5) [tx_missing] []) = [''task-tx-A'']
   \<and> generateTasks fmt_date fmt_amount (Time 9) [tx_missing]
        (generateTasks fmt_date fmt_amount (Time 5) [tx_missing] [])
      = generateTasks fmt_date fmt_amount (Time 5) [tx_missing] []"
  using regenerate_tasks_unchanged [of "[tx_missing]" fmt_date fmt_amount "Time 9" "Time 5" "[]"]
  by (simp add: tx_missing_def tx_A_def generateTasks_def Let_def new_Set_def set_add_def
      addMissing_def newTask_def)


section \<open>Document record store\<close>

lemma find_first_match:
  "\<not> list_ex P pre \<Longrightarrow> P x \<Longrightarrow> find P (pre @ x # post) = Some x"
  by (induction pre) auto

lemma find_no_match: "\<not> list_ex P xs \<Longrightarrow> find P xs = None"
  by (induction xs) auto

lemma addDocument_cache:
  "snd (addDocument newId now fileHash params cache)
     = cache @ [fst (addDocument newId now fileHash params cache)]"
  by (simp add: addDocument_def Let_def)

lemma addDocument_fields:
  "doc_id (fst (addDocument newId now fileHash params cache)) = newId"
  "doc_fileHash (fst (addDocument newId now fileHash params cache)) = fileHash"
  "doc_duplicateIgnored (fst (addDocument newId now fileHash params cache)) = None"
  by (simp_all add: addDocument_def Let_def)

lemma addDocument_first_match:
  assumes "h \<noteq> []" and "\<not> list_ex (sameHash h) pre" and "sameHash h first"
  shows "doc_duplicateOfId (fst (addDocument newId now (Some h) params (pre @ first # post)))
           = Some (doc_id first)"
    and "doc_status (fst (addDocument newId now (Some h) params (pre @ first # post)))
           = POTENTIAL_DUPLICATE"
  using assms find_first_match [of "sameHash h" pre first post]
  by (simp_all add: addDocument_def Let_def)

lemma addDocument_no_match:
  assumes "\<not> list_ex (sameHash h) cache"
  shows "doc_duplicateOfId (fst (addDocument newId now (Some h) params cache)) = None"
    and "doc_status (fst (addDocument newId now (Some h) params cache)) = ANALYZING"
  using assms find_no_match [of "sameHash h" cache]
  by (simp_all add: addDocument_def Let_def)

lemma addDocument_sameHash:
  "sameHash h (fst (addDocument newId now (Some h) params cache))"
  by (simp add: sameHash_def addDocument_fields)

text \<open>
  C5. Let the hash of the uploaded bytes be computed (a hexadecimal digest, so not empty).
  When the cache holds a document with this hash that is not ignored, the new record is
  stored with \<open>duplicateOfId\<close> the id of the first such document and with the status
  POTENTIAL_DUPLICATE. Of three uploads of the same bytes into a cache without a match, the
  second and the third are both flagged against the first.
\<close>

theorem duplicate_flagged_against_first_match:
  assumes "h \<noteq> []"
  shows "(\<not> list_ex (sameHash h) pre \<and> sameHash h first \<longrightarrow>
            doc_duplicateOfId (fst (addDocument newId now (Some h) params (pre @ first # post)))
              = Some (doc_id first)
          \<and> doc_status (fst (addDocument newId now (Some h) params (pre @ first # post)))
              = POTENTIAL_DUPLICATE
          \<and> snd (addDocument newId now (Some h) params (pre @ first # post))
              = (pre @ first # post) @ [fst (addDocument newId now (Some h) params (pre @ first # post))])
       \<and> (\<not> list_ex (sameHash h) cache \<longrightarrow>
            doc_status (fst (upload1 h i1 n1 q1 cache)) = ANALYZING
          \<and> doc_duplicateOfId (fst (upload2 h i1 n1 q1 i2 n2 q2 cache)) = Some i1
          \<and> doc_status (fst (upload2 h i1 n1 q1 i2 n2 q2 cache)) = POTENTIAL_DUPLICATE
          \<and> doc_duplicateOfId (fst (upload3 h i1 n1 q1 i2 n2 q2 i3 n3 q3 cache)) = Some i1
          \<and> doc_status (fst (upload3 h i1 n1 q1 i2 n2 q2 i3 n3 q3 cache)) = POTENTIAL_DUPLICATE)"
proof (intro conjI impI)
  assume a: "\<not> list_ex (sameHash h) pre \<and> sameHash h first"
  show "doc_duplicateOfId (fst (addDocument newId now (Some h) params (pre @ first # post)))
      = Some (doc_id first)"
    using addDocument_first_match(1) [OF assms] a by blast
  show "doc_status (fst (addDocument newId now (Some h) params (pre @ first # post)))
      = POTENTIAL_DUPLICATE"
    using addDocument_first_match(2) [OF assms] a by blast
  show "snd (addDocument newId now (Some h) params (pre @ first # post))
      = (pre @ first # post) @ [fst (addDocument newId now (Some h) params (pre @ first # post))]"
    by (rule addDocument_cache)
next
  assume c: "\<not> list_ex (sameHash h) cache"
  let ?r1 = "fst (upload1 h i1 n1 q1 cache)"
  let ?r2 = "fst (upload2 h i1 n1 q1 i2 n2 q2 cache)"
  have c1: "snd (upload1 h i1 n1 q1 cache) = cache @ ?r1 # []"
    by (simp add: upload1_def addDocument_cache)
  have c2: "snd (upload2 h i1 n1 q1 i2 n2 q2 cache) = cache @ ?r1 # [?r2]"
    by (simp add: upload2_def addDocument_cache c1)
  have r1: "sameHash h ?r1" "doc_id ?r1 = i1"
    by (simp_all add: upload1_def addDocument_sameHash addDocument_fields)
  show "doc_status ?r1 = ANALYZING"
    unfolding upload1_def by (rule addDocument_no_match(2) [OF c])
  show "doc_duplicateOfId ?r2 = Some i1"
    unfolding upload2_def c1 using addDocument_first_match(1) [OF assms c r1(1)] r1(2) by simp
  show "doc_status ?r2 = POTENTIAL_DUPLICATE"
    unfolding upload2_def c1 by (rule addDocument_first_match(2) [OF assms c r1(1)])
  show "doc_duplicateOfId (fst (upload3 h i1 n1 q1 i2 n2 q2 i3 n3 q3 cache)) = Some i1"
    unfolding upload3_def c2 using addDocument_first_match(1) [OF assms c r1(1)] r1(2) by simp
  show "doc_status (fst (upload3 h i1 n1 q1 i2 n2 q2 i3 n3 q3 cache)) = POTENTIAL_DUPLICATE"
    unfolding upload3_def c2 by (rule addDocument_first_match(2) [OF assms c r1(1)])
qed

theorem duplicate_flagged_against_first_match_witness:
  "''ab12'' \<noteq> []
   \<and> \<not> list_ex (sameHash ''ab12'') [] \<and> sameHash ''ab12'' first_upload
   \<and> doc_duplicateOfId (fst (addDocument ''doc-2'' clock_1 (Some ''ab12'') upload_params [first_upload]))
       = Some ''doc-1''
   \<and> doc_status (fst (addDocument ''doc-2'' clock_1 (Some ''ab12'') upload_params [first_upload]))
       = POTENTIAL_DUPLICATE
   \<and> doc_duplicateOfId (fst (upload3 ''ab12'' ''doc-1'' clock_1 upload_params
         ''doc-2'' clock_1 upload_params ''doc-3'' clock_1 upload_params [])) = Some ''doc-1''
   \<and> doc_status (fst (upload3 ''ab12'' ''doc-1'' clock_1 upload_params
         ''doc-2'' clock_1 upload_params ''doc-3'' clock_1 upload_params [])) = POTENTIAL_DUPLICATE"
  using duplicate_flagged_against_first_match [of "''ab12''" "[]" first_upload "''doc-2''" clock_1
      upload_params "[]" "[]" "''doc-1''" clock_1 upload_params "''doc-2''" clock_1 upload_params
      "''doc-3''" clock_1 upload_params]
  by (simp add: first_upload_def sameHash_def addDocument_def Let_def)

lemma findIndex_None: "findIndex P xs = None \<longleftrightarrow> \<not> list_ex P xs"
  by (induction xs) auto

lemma findIndex_Some:
  "findIndex P xs = Some i \<Longrightarrow> i < length xs \<and> P (xs ! i) \<and> \<not> list_ex P (take i xs)"
proof (induction xs arbitrary: i)
  case Nil
  then show ?case by simp
next
  case (Cons x xs)
  show ?case
  proof (cases "P x")
    case True
    with Cons.prems show ?thesis by simp
  next
    case False
    with Cons.prems obtain j where j: "findIndex P xs = Some j" "i = Suc j" by auto
    from Cons.IH [OF j(1)] False j(2) show ?thesis by simp
  qed
qed

lemma updateDocument_missing:
  "ident \<notin> set (map doc_id cache) \<Longrightarrow> updateDocument nowIso ident patch cache = (None, cache)"
proof -
  assume "ident \<notin> set (map doc_id cache)"
  then have "\<not> list_ex (\<lambda>d. doc_id d = ident) cache" by (auto simp: list_ex_iff)
  then have "findIndex (\<lambda>d. doc_id d = ident) cache = None" by (simp add: findIndex_None)
  then show ?thesis by (simp add: updateDocument_def)
qed

lemma updateDocument_found:
  assumes "ident \<in> set (map doc_id cache)"
  shows "\<exists>idx u. updateDocument nowIso ident patch cache = (Some u, cache[idx := u])
     \<and> idx < length cache \<and> doc_id (cache ! idx) = ident
     \<and> doc_id u = ident \<and> doc_updatedAt u = nowIso
     \<and> map doc_id (cache[idx := u]) = map doc_id cache"
proof -
  from assms have "list_ex (\<lambda>d. doc_id d = ident) cache" by (auto simp: list_ex_iff)
  then obtain idx where idx: "findIndex (\<lambda>d. doc_id d = ident) cache = Some idx"
    using findIndex_None [of "\<lambda>d. doc_id d = ident" cache] by (cases "findIndex (\<lambda>d. doc_id d = ident) cache") auto
  from findIndex_Some [OF idx] have i: "idx < length cache" "doc_id (cache ! idx) = ident" by simp_all
  let ?u = "(applyPatch (cache ! idx) patch)\<lparr>doc_id := ident, doc_updatedAt := nowIso\<rparr>"
  have "updateDocument nowIso ident patch cache = (Some ?u, cache[idx := ?u])"
    by (simp add: updateDocument_def idx Let_def)
  moreover have "map doc_id (cache[idx := ?u]) = map doc_id cache"
    using i by (simp add: map_update list_update_same_conv)
  ultimately show ?thesis using i by (intro exI [of _ idx] exI [of _ ?u]) simp
qed

text \<open>
  C10. \<open>updateDocument\<close> returns \<open>null\<close> and leaves the cache as it is when no document
  has the id. Otherwise it replaces the first document with that id by a record that has the
  same id, whatever id the patch carries, and the time of the call as \<open>updatedAt\<close>; the ids
  of the cache are unchanged.
\<close>

theorem updateDocument_keeps_identity:
  "(ident \<notin> set (map doc_id cache) \<longrightarrow>
      updateDocument nowIso ident patch cache = (None, cache))
   \<and> (ident \<in> set (map doc_id cache) \<longrightarrow>
      (\<exists>idx u. updateDocument nowIso ident patch cache = (Some u, cache[idx := u])
         \<and> idx < length cache \<and> doc_id (cache ! idx) = ident
         \<and> doc_id u = ident \<and> doc_updatedAt u = nowIso
         \<and> map doc_id (cache[idx := u]) = map doc_id cache))"
  using updateDocument_missing updateDocument_found by blast

theorem updateDocument_keeps_identity_witness:
  "''doc-1'' \<in> set (map doc_id [first_upload])
   \<and> map (\<lambda>d. (doc_id d, doc_updatedAt d, doc_vendor d))
       (snd (updateDocument ''2024-06-01T00:00:00.000Z'' ''doc-1'' other_id_patch [first_upload]))
       = [(''doc-1'', ''2024-06-01T00:00:00.000Z'', Some ''Bauhaus'')]
   \<and> ''doc-7'' \<notin> set (map doc_id [first_upload])
   \<and> updateDocument ''2024-06-01T00:00:00.000Z'' ''doc-7'' other_id_patch [first_upload]
       = (None, [first_upload])"
  using updateDocument_keeps_identity [of "''doc-1''" "[first_upload]" "''2024-06-01T00:00:00.000Z''" other_id_patch]
    updateDocument_keeps_identity [of "''doc-7''" "[first_upload]" "''2024-06-01T00:00:00.000Z''" other_id_patch]
  by (simp add: first_upload_def addDocument_def Let_def updateDocument_def other_id_patch_def
      empty_patch_def applyPatch_def patched_def)

end
